theory Spec2Isabelle
  imports Main "HOL-Library.Word" "HOL-Library.Monad_Syntax"
begin

unbundle bit_operations_syntax

section \<open>Machine integers and the runtime interface\<close>

text \<open>
  The scheduler is BPF C: \<open>u32\<close> and \<open>u64\<close> are 32- and 64-bit words whose
  arithmetic wraps around; \<open>s32\<close> and \<open>s64\<close> are the same bits read in two's
  complement (\<open>sint\<close>, \<open><s\<close>, \<open>\<le>s\<close>). The model is the default build
  (\<open>EEVDF_TELEMETRY\<close> is 0, so \<open>stat_inc\<close> does nothing and the task context
  has no \<open>enq_ns\<close>).
\<close>

type_synonym u32 = "32 word"
type_synonym u64 = "64 word"
type_synonym s32 = "32 word"
type_synonym s64 = "64 word"

text \<open>
  Every \<open>/\<close> of the source goes through \<open>udiv\<close>: unsigned division that traps on
  a zero divisor. A handler that traps returns \<open>None\<close>.
\<close>

definition udiv :: "'a::len word \<Rightarrow> 'a word \<Rightarrow> 'a word option" where
  "udiv a b = (if b = 0 then None else Some (a div b))"

abbreviation (input) CAPACITY_SCALE :: "'a::len word" where "CAPACITY_SCALE \<equiv> 1024"
abbreviation (input) EEVDF_DSQ_BIG :: u64 where "EEVDF_DSQ_BIG \<equiv> 1"
abbreviation (input) EEVDF_DSQ_LITTLE :: u64 where "EEVDF_DSQ_LITTLE \<equiv> 2"
abbreviation (input) BIG_CAP_PCT :: "'a::len word" where "BIG_CAP_PCT \<equiv> 90"
abbreviation (input) LAG_BOOST_DIV :: "'a::len word" where "LAG_BOOST_DIV \<equiv> 4"
abbreviation (input) DISPATCH_BATCH_MAX :: nat where "DISPATCH_BATCH_MAX \<equiv> 8"
abbreviation (input) INV_SHIFT :: nat where "INV_SHIFT \<equiv> 20"
abbreviation (input) SCALE :: "'a::len word" where "SCALE \<equiv> 100"

text \<open>\<open>struct eevdf_ctx\<close>, the single entry of the \<open>global_data\<close> array map.\<close>

record eevdf_ctx =
  vtime_now :: u64
  total_weight :: u64
  max_capacity :: u32
  pad :: u32

text \<open>\<open>struct eevdf_task_ctx\<close>, the task-local storage of \<open>task_ctx_map\<close>.\<close>

record eevdf_task_ctx =
  weight_cached :: u32
  inv_weight :: u32

text \<open>
  The fields of \<open>struct task_struct\<close> that the handlers read and write:
  \<open>p->scx.weight\<close>, \<open>p->scx.slice\<close>, \<open>p->scx.dsq_vtime\<close>, and the value of
  \<open>scx_bpf_task_cpu(p)\<close>. \<open>pid\<close> identifies the task in queues and in task storage.
\<close>

record task_struct =
  pid :: nat
  scx_weight :: u32
  scx_slice :: u64
  scx_dsq_vtime :: u64
  task_cpu :: s32

text \<open>
  What the sched_ext runtime supplies to a handler invocation: the constant
  \<open>SCX_SLICE_DFL\<close> (20000000 ns in the kernel; any value here), the results of
  \<open>scx_bpf_select_cpu_dfl\<close> (CPU and idle flag), \<open>scx_bpf_pick_idle_cpu\<close>,
  \<open>scx_bpf_dispatch_nr_slots\<close> and \<open>bpf_get_smp_processor_id\<close>, and whether
  \<open>bpf_task_storage_get\<close> can allocate a new entry.
\<close>

record runtime =
  SCX_SLICE_DFL :: u64
  select_cpu_dfl :: "s32 \<times> bool"
  pick_idle_cpu :: s32
  dispatch_nr_slots :: u32
  smp_processor_id :: u32
  storage_alloc :: bool

text \<open>
  The BPF maps and the dispatch queues. A map lookup that returns \<open>NULL\<close> is
  \<open>None\<close>. A dispatch queue holds (sort key, task) pairs in key order; a queue that
  was never created is \<open>None\<close>. \<open>local_dsqs\<close> are the per-CPU local queues.
\<close>

record sched =
  global_data :: "eevdf_ctx option"
  cpu_capacity :: "u32 \<Rightarrow> u32 option"
  task_ctx_map :: "nat \<Rightarrow> eevdf_task_ctx option"
  dsqs :: "u64 \<Rightarrow> (u64 \<times> nat) list option"
  local_dsqs :: "s32 \<Rightarrow> nat list"

text \<open>
  \<open>time_before(a, b)\<close> of the sched_ext BPF header \<open>scx/common.bpf.h\<close> (not part of
  the repository): the wrap-around comparison \<open>(s64)(a - b) < 0\<close>.
\<close>

definition time_before :: "u64 \<Rightarrow> u64 \<Rightarrow> bool" where
  "time_before a b = (a - b <s 0)"

text \<open>
  Runtime primitives, as the specification describes them. \<open>scx_bpf_dsq_insert_vtime\<close>
  inserts the task into a named queue (of the given family of queues) ordered by its
  sort key, after the entries with an equal key; \<open>scx_bpf_dsq_insert\<close> to \<open>SCX_DSQ_LOCAL\<close> appends it to the local
  queue of a CPU; \<open>scx_bpf_dsq_move_to_local\<close> moves the first entry of a named queue
  to the local queue of the dispatching CPU and says whether it moved one;
  \<open>scx_bpf_create_dsq\<close> creates an empty queue (\<open>-EEXIST\<close> when it exists).
\<close>

fun priq_insert :: "u64 \<times> nat \<Rightarrow> (u64 \<times> nat) list \<Rightarrow> (u64 \<times> nat) list" where
  "priq_insert x [] = [x]"
| "priq_insert x (y # ys) = (if fst x < fst y then x # y # ys else y # priq_insert x ys)"

definition scx_bpf_dsq_insert_vtime ::
  "task_struct \<Rightarrow> u64 \<Rightarrow> u64 \<Rightarrow> u64 \<Rightarrow> u64 \<Rightarrow>
   (u64 \<Rightarrow> (u64 \<times> nat) list option) \<Rightarrow> (u64 \<Rightarrow> (u64 \<times> nat) list option)" where
  "scx_bpf_dsq_insert_vtime p dsq_id slice_ns vtime enq_flags qs =
     (case qs dsq_id of
        None \<Rightarrow> qs
      | Some q \<Rightarrow> qs(dsq_id \<mapsto> priq_insert (vtime, pid p) q))"

definition scx_bpf_dsq_insert_local :: "task_struct \<Rightarrow> s32 \<Rightarrow> u64 \<Rightarrow> u64 \<Rightarrow> sched \<Rightarrow> sched" where
  "scx_bpf_dsq_insert_local p cpu slice_ns enq_flags st =
     st\<lparr>local_dsqs := (local_dsqs st)(cpu := local_dsqs st cpu @ [pid p])\<rparr>"

definition scx_bpf_dsq_move_to_local :: "s32 \<Rightarrow> u64 \<Rightarrow> sched \<Rightarrow> bool \<times> sched" where
  "scx_bpf_dsq_move_to_local cpu dsq_id st =
     (case dsqs st dsq_id of
        Some (x # q) \<Rightarrow>
          (True, st\<lparr>dsqs := (dsqs st)(dsq_id \<mapsto> q),
                     local_dsqs := (local_dsqs st)(cpu := local_dsqs st cpu @ [snd x])\<rparr>)
      | _ \<Rightarrow> (False, st))"

definition scx_bpf_create_dsq :: "u64 \<Rightarrow> sched \<Rightarrow> s32 \<times> sched" where
  "scx_bpf_create_dsq dsq_id st =
     (case dsqs st dsq_id of
        None \<Rightarrow> (0, st\<lparr>dsqs := (dsqs st)(dsq_id \<mapsto> [])\<rparr>)
      | Some q \<Rightarrow> (- 17, st))"

section \<open>The heterogeneous scheduler (BPF side)\<close>

subsection \<open>Map access\<close>

definition get_ctx :: "sched \<Rightarrow> eevdf_ctx option" where
  "get_ctx st = global_data st"

definition get_cpu_cap :: "sched \<Rightarrow> u32 \<Rightarrow> u32" where
  "get_cpu_cap st cpu =
     (case cpu_capacity st cpu of
        Some cap \<Rightarrow> if cap \<noteq> 0 then cap else CAPACITY_SCALE
      | None \<Rightarrow> CAPACITY_SCALE)"

text \<open>
  \<open>get_task_ctx(p, create)\<close>: the task's storage entry; with \<open>create\<close> a missing entry
  is allocated zeroed when the runtime can allocate. The entry is a pointer in the
  source: \<open>put_task_ctx\<close> stores what the handler wrote through it.
\<close>

definition get_task_ctx ::
  "runtime \<Rightarrow> task_struct \<Rightarrow> bool \<Rightarrow> sched \<Rightarrow> eevdf_task_ctx option \<times> sched" where
  "get_task_ctx rt p create st =
     (case task_ctx_map st (pid p) of
        Some t \<Rightarrow> (Some t, st)
      | None \<Rightarrow>
          if create \<and> storage_alloc rt
          then (Some \<lparr>weight_cached = 0, inv_weight = 0\<rparr>,
                st\<lparr>task_ctx_map := (task_ctx_map st)(pid p \<mapsto> \<lparr>weight_cached = 0, inv_weight = 0\<rparr>)\<rparr>)
          else (None, st))"

definition put_task_ctx :: "task_struct \<Rightarrow> eevdf_task_ctx option \<Rightarrow> sched \<Rightarrow> sched" where
  "put_task_ctx p tctx st =
     (case tctx of
        None \<Rightarrow> st
      | Some t \<Rightarrow> st\<lparr>task_ctx_map := (task_ctx_map st)(pid p \<mapsto> t)\<rparr>)"

subsection \<open>Class selection\<close>

definition class_dsq_id :: "u32 \<Rightarrow> u32 \<Rightarrow> u64" where
  "class_dsq_id cap max_cap =
     (let max_cap = (if max_cap = 0 then CAPACITY_SCALE else max_cap)
      in if (ucast max_cap :: u64) * BIG_CAP_PCT \<le> (ucast cap :: u64) * 100
         then EEVDF_DSQ_BIG else EEVDF_DSQ_LITTLE)"

definition desired_dsq_for_task ::
  "runtime \<Rightarrow> task_struct \<Rightarrow> eevdf_ctx option \<Rightarrow> u32 \<Rightarrow> sched \<Rightarrow> u64 option" where
  "desired_dsq_for_task rt p gdata max_cap st = do {
     q_max \<leftarrow> udiv ((ucast max_cap :: u64) * SCX_SLICE_DFL rt) CAPACITY_SCALE;
     q4 \<leftarrow> udiv q_max LAG_BOOST_DIV;
     let lag_boost = q4 + 1;
     (case gdata of
        None \<Rightarrow> Some EEVDF_DSQ_BIG
      | Some g \<Rightarrow>
          let lag = vtime_now g - scx_dsq_vtime p
          in if lag_boost <s lag then Some EEVDF_DSQ_BIG
             else if lag <s - lag_boost then Some EEVDF_DSQ_LITTLE
             else Some (class_dsq_id (get_cpu_cap st (task_cpu p)) max_cap))
   }"

subsection \<open>Weight cache and arithmetic helpers\<close>

definition refresh_weight_cache ::
  "eevdf_task_ctx option \<Rightarrow> u32 \<Rightarrow> eevdf_task_ctx option option" where
  "refresh_weight_cache tctx weight =
     (case tctx of
        None \<Rightarrow> Some None
      | Some t \<Rightarrow>
          let weight = (if weight = 0 then 1 else weight)
          in if weight_cached t = weight \<and> inv_weight t \<noteq> 0 then Some (Some t)
             else do {
               half \<leftarrow> udiv weight 2;
               inv \<leftarrow> udiv (push_bit INV_SHIFT (1 :: u64) + ucast half) (ucast weight);
               let inv = (if inv = 0 then 1 else inv);
               Some (Some (t\<lparr>weight_cached := weight, inv_weight := ucast inv\<rparr>))
             })"

definition div_by_weight_cached ::
  "u64 \<Rightarrow> u32 \<Rightarrow> eevdf_task_ctx option \<Rightarrow> (u64 \<times> eevdf_task_ctx option) option" where
  "div_by_weight_cached val weight tctx = do {
     let weight = (if weight = 0 then 1 else weight);
     tctx \<leftarrow> refresh_weight_cache tctx weight;
     (case tctx of
        Some t \<Rightarrow>
          if inv_weight t \<noteq> 0 \<and> val \<le> 0xffffffff
          then Some (drop_bit INV_SHIFT
                       ((ucast (ucast val :: u32) :: u64) * ucast (inv_weight t)), tctx)
          else do { q \<leftarrow> udiv val (ucast weight); Some (q, tctx) }
      | None \<Rightarrow> do { q \<leftarrow> udiv val (ucast weight); Some (q, tctx) })
   }"

definition abs_s64_to_u64 :: "s64 \<Rightarrow> u64" where
  "abs_s64_to_u64 v = (if 0 \<le>s v then v else - (v + 1) + 1)"

definition div_signed_u64 :: "s64 \<Rightarrow> u64 \<Rightarrow> s64 option" where
  "div_signed_u64 num den =
     (if den = 0 then Some 0
      else do {
        abs_q \<leftarrow> udiv (abs_s64_to_u64 num) den;
        if num <s 0 then Some (- abs_q) else Some abs_q
      })"

definition add_signed_vtime :: "eevdf_ctx \<Rightarrow> s64 \<Rightarrow> eevdf_ctx" where
  "add_signed_vtime gdata delta =
     (if 0 \<le>s delta then
        (let add = delta
         in if vtime_now gdata > NOT 0 - add then gdata\<lparr>vtime_now := NOT 0\<rparr>
            else gdata\<lparr>vtime_now := vtime_now gdata + add\<rparr>)
      else
        (let sub = abs_s64_to_u64 delta
         in if vtime_now gdata > sub then gdata\<lparr>vtime_now := vtime_now gdata - sub\<rparr>
            else gdata\<lparr>vtime_now := 0\<rparr>))"

subsection \<open>Event handlers\<close>

text \<open>
  Each handler takes the runtime inputs, the task and the scheduler state, and returns
  the task and the state it leaves (\<open>None\<close>: it trapped on a division). Arguments
  that the source only forwards to the runtime's pickers (\<open>prev_cpu\<close>,
  \<open>wake_flags\<close>) or never reads (\<open>prev\<close>, \<open>runnable\<close>) are left out.
\<close>

definition eevdf_select_cpu ::
  "runtime \<Rightarrow> task_struct \<Rightarrow> sched \<Rightarrow> (s32 \<times> sched) option" where
  "eevdf_select_cpu rt p st = do {
     let (cpu, is_idle) = select_cpu_dfl rt;
     let gdata = get_ctx st;
     let max_cap = (case gdata of
                      Some g \<Rightarrow> if max_capacity g \<noteq> 0 then max_capacity g else CAPACITY_SCALE
                    | None \<Rightarrow> CAPACITY_SCALE);
     let cpu_cap = (if 0 \<le>s cpu then get_cpu_cap st cpu else CAPACITY_SCALE);
     let selected_dsq = class_dsq_id cpu_cap max_cap;
     desired_dsq \<leftarrow> desired_dsq_for_task rt p gdata max_cap st;
     let (cpu, is_idle, selected_dsq) =
       (if \<not> is_idle \<and> desired_dsq \<noteq> selected_dsq then
          (let idle_cpu = pick_idle_cpu rt
           in if 0 \<le>s idle_cpu then
                (let idle_dsq = class_dsq_id (get_cpu_cap st idle_cpu) max_cap
                 in if idle_dsq = desired_dsq then (idle_cpu, True, idle_dsq)
                    else (cpu, is_idle, selected_dsq))
              else (cpu, is_idle, selected_dsq))
        else (cpu, is_idle, selected_dsq));
     Some (cpu,
           if is_idle \<and> desired_dsq = selected_dsq
           then scx_bpf_dsq_insert_local p cpu (SCX_SLICE_DFL rt) 0 st
           else st)
   }"

definition eevdf_enqueue ::
  "runtime \<Rightarrow> task_struct \<Rightarrow> u64 \<Rightarrow> sched \<Rightarrow> (task_struct \<times> sched) option" where
  "eevdf_enqueue rt p enq_flags st =
     (case get_ctx st of
        None \<Rightarrow> Some (p, st)
      | Some gdata \<Rightarrow> do {
          let v_now = vtime_now gdata;
          let ve = scx_dsq_vtime p;
          let (tctx, st) = get_task_ctx rt p True st;
          let max_cap = (if max_capacity gdata \<noteq> 0 then max_capacity gdata else CAPACITY_SCALE);
          q_max \<leftarrow> udiv ((ucast max_cap :: u64) * SCX_SLICE_DFL rt) CAPACITY_SCALE;
          let min_ve = (if v_now > q_max then v_now - q_max else 0);
          let ve = (if time_before ve min_ve then min_ve else ve);
          let weight = scx_weight p;
          let weight = (if weight = 0 then 1 else weight);
          tctx \<leftarrow> refresh_weight_cache tctx weight;
          (d, tctx) \<leftarrow> div_by_weight_cached (q_max * SCALE) weight tctx;
          let vd = ve + d;
          let p = p\<lparr>scx_dsq_vtime := ve\<rparr>;
          let st = put_task_ctx p tctx st;
          dsq_id \<leftarrow> desired_dsq_for_task rt p (Some gdata) max_cap st;
          Some (p, st\<lparr>dsqs := scx_bpf_dsq_insert_vtime p dsq_id (SCX_SLICE_DFL rt) vd enq_flags
                                   (dsqs st)\<rparr>)
        })"

text \<open>
  The loop of \<open>eevdf_dispatch\<close>: \<open>i\<close> counts from 0 to \<open>DISPATCH_BATCH_MAX\<close>, so it
  is a natural number; \<open>slots\<close> is the clamped \<open>u32\<close>.
\<close>

function dispatch_loop :: "nat \<Rightarrow> u32 \<Rightarrow> s32 \<Rightarrow> u64 \<Rightarrow> u64 \<Rightarrow> sched \<Rightarrow> sched" where
  "dispatch_loop i slots cpu local_dsq other_dsq st =
     (if i < DISPATCH_BATCH_MAX then
        (if unat slots \<le> i then st
         else (case scx_bpf_dsq_move_to_local cpu local_dsq st of
                 (True, st1) \<Rightarrow> dispatch_loop (i + 1) slots cpu local_dsq other_dsq st1
               | (False, st1) \<Rightarrow>
                   (case scx_bpf_dsq_move_to_local cpu other_dsq st1 of
                      (True, st2) \<Rightarrow> dispatch_loop (i + 1) slots cpu local_dsq other_dsq st2
                    | (False, st2) \<Rightarrow> st2)))
      else st)"
  by pat_completeness auto
termination
  by (relation "measure (\<lambda>(i, slots, cpu, local_dsq, other_dsq, st). DISPATCH_BATCH_MAX - i)") auto

declare dispatch_loop.simps [simp del]

definition eevdf_dispatch :: "runtime \<Rightarrow> s32 \<Rightarrow> sched \<Rightarrow> sched option" where
  "eevdf_dispatch rt cpu st =
     (let gdata = get_ctx st;
          max_cap = (case gdata of
                       Some g \<Rightarrow> if max_capacity g \<noteq> 0 then max_capacity g else CAPACITY_SCALE
                     | None \<Rightarrow> CAPACITY_SCALE);
          cap = get_cpu_cap st cpu;
          local_dsq = class_dsq_id cap max_cap;
          other_dsq = (if local_dsq = EEVDF_DSQ_BIG then EEVDF_DSQ_LITTLE else EEVDF_DSQ_BIG);
          slots = dispatch_nr_slots rt;
          slots = (if slots = 0 then 1 else slots);
          slots = (if slots > 8 then 8 else slots)
      in Some (dispatch_loop 0 slots cpu local_dsq other_dsq st))"

definition eevdf_running :: "task_struct \<Rightarrow> sched \<Rightarrow> (task_struct \<times> sched) option" where
  "eevdf_running p st =
     (case get_ctx st of
        None \<Rightarrow> Some (p, st)
      | Some gdata \<Rightarrow>
          if time_before (vtime_now gdata) (scx_dsq_vtime p)
          then Some (p, st\<lparr>global_data := Some (gdata\<lparr>vtime_now := scx_dsq_vtime p\<rparr>)\<rparr>)
          else Some (p, st))"

definition eevdf_stopping ::
  "runtime \<Rightarrow> task_struct \<Rightarrow> sched \<Rightarrow> (task_struct \<times> sched) option" where
  "eevdf_stopping rt p st = do {
     let cpu = smp_processor_id rt;
     let cap = get_cpu_cap st cpu;
     let gdata = get_ctx st;
     let (tctx, st) = get_task_ctx rt p False st;
     let consumed = SCX_SLICE_DFL rt - scx_slice p;
     let weight = scx_weight p;
     let weight = (if weight = 0 then 1 else weight);
     svc_vtime \<leftarrow> udiv (consumed * ucast cap * SCALE) CAPACITY_SCALE;
     (d, tctx) \<leftarrow> div_by_weight_cached svc_vtime weight tctx;
     let p = p\<lparr>scx_dsq_vtime := scx_dsq_vtime p + d\<rparr>;
     let st = put_task_ctx p tctx st;
     (case gdata of
        Some g \<Rightarrow>
          if total_weight g \<noteq> 0
          then do {
            dv \<leftarrow> udiv svc_vtime (total_weight g);
            Some (p, st\<lparr>global_data := Some (g\<lparr>vtime_now := vtime_now g + dv\<rparr>)\<rparr>)
          }
          else Some (p, st)
      | None \<Rightarrow> Some (p, st))
   }"

definition eevdf_set_weight ::
  "runtime \<Rightarrow> task_struct \<Rightarrow> u32 \<Rightarrow> sched \<Rightarrow> (task_struct \<times> sched) option" where
  "eevdf_set_weight rt p new_weight st =
     (case get_ctx st of
        None \<Rightarrow> Some (p, st)
      | Some gdata \<Rightarrow> do {
          let old_weight = scx_weight p;
          let old_sum = total_weight gdata;
          let old_weight = (if old_weight = 0 then 1 else old_weight);
          let new_weight = (if new_weight = 0 then 1 else new_weight);
          let (tctx, st) = get_task_ctx rt p True st;
          tctx \<leftarrow> refresh_weight_cache tctx new_weight;
          let st = put_task_ctx p tctx st;
          let gdata = (if total_weight gdata \<ge> ucast old_weight
                       then gdata\<lparr>total_weight := total_weight gdata - ucast old_weight\<rparr>
                       else gdata);
          let gdata = gdata\<lparr>total_weight := total_weight gdata + ucast new_weight\<rparr>;
          let new_sum = total_weight gdata;
          if old_sum = 0 \<or> new_sum = 0 then Some (p, st\<lparr>global_data := Some gdata\<rparr>)
          else do {
            let lag = vtime_now gdata - scx_dsq_vtime p;
            adjust_old \<leftarrow> div_signed_u64 lag old_sum;
            adjust_new \<leftarrow> div_signed_u64 lag new_sum;
            let diff = adjust_old - adjust_new;
            Some (p, st\<lparr>global_data := Some (add_signed_vtime gdata diff)\<rparr>)
          }
        })"

definition eevdf_enable :: "task_struct \<Rightarrow> sched \<Rightarrow> (task_struct \<times> sched) option" where
  "eevdf_enable p st =
     (case get_ctx st of
        None \<Rightarrow> Some (p, st)
      | Some gdata \<Rightarrow> do {
          let weight = scx_weight p;
          let weight = (if weight = 0 then 1 else weight);
          let p = (if scx_dsq_vtime p = 0 then p\<lparr>scx_dsq_vtime := vtime_now gdata\<rparr> else p);
          let lag = vtime_now gdata - scx_dsq_vtime p;
          let new_sum = total_weight gdata + ucast weight;
          gdata \<leftarrow> (if new_sum \<noteq> 0
                    then do { q \<leftarrow> div_signed_u64 lag new_sum; Some (add_signed_vtime gdata (- q)) }
                    else Some gdata);
          Some (p, st\<lparr>global_data := Some (gdata\<lparr>total_weight := new_sum\<rparr>)\<rparr>)
        })"

definition eevdf_disable :: "task_struct \<Rightarrow> sched \<Rightarrow> (task_struct \<times> sched) option" where
  "eevdf_disable p st =
     (case get_ctx st of
        None \<Rightarrow> Some (p, st)
      | Some gdata \<Rightarrow> do {
          let weight = scx_weight p;
          let weight = (if weight = 0 then 1 else weight);
          let lag = vtime_now gdata - scx_dsq_vtime p;
          let new_sum = (if total_weight gdata \<ge> ucast weight
                         then total_weight gdata - ucast weight else 0);
          let gdata = gdata\<lparr>total_weight := new_sum\<rparr>;
          gdata \<leftarrow> (if new_sum \<noteq> 0
                    then do { q \<leftarrow> div_signed_u64 lag new_sum; Some (add_signed_vtime gdata q) }
                    else Some gdata);
          Some (p, st\<lparr>global_data := Some gdata,
                       task_ctx_map := (task_ctx_map st)(pid p := None)\<rparr>)
        })"

definition eevdf_init :: "sched \<Rightarrow> (s32 \<times> sched) option" where
  "eevdf_init st =
     (let st = (case get_ctx st of
                  Some gdata \<Rightarrow>
                    if max_capacity gdata = 0
                    then st\<lparr>global_data := Some (gdata\<lparr>max_capacity := CAPACITY_SCALE\<rparr>)\<rparr>
                    else st
                | None \<Rightarrow> st);
          (ret, st) = scx_bpf_create_dsq EEVDF_DSQ_BIG st
      in if ret \<noteq> 0 then Some (ret, st)
         else Some (scx_bpf_create_dsq EEVDF_DSQ_LITTLE st))"

text \<open>
  The dispatch rule in the specification's words: for up to \<open>n\<close> iterations, move the
  first task of the CPU's own class queue to the local queue; if that fails, try the
  other class; if both fail, stop.
\<close>

fun dispatch_spec :: "nat \<Rightarrow> s32 \<Rightarrow> u64 \<Rightarrow> u64 \<Rightarrow> sched \<Rightarrow> sched" where
  "dispatch_spec 0 cpu own other st = st"
| "dispatch_spec (Suc n) cpu own other st =
     (case scx_bpf_dsq_move_to_local cpu own st of
        (True, st') \<Rightarrow> dispatch_spec n cpu own other st'
      | (False, st') \<Rightarrow>
          (case scx_bpf_dsq_move_to_local cpu other st' of
             (True, st'') \<Rightarrow> dispatch_spec n cpu own other st''
           | (False, st'') \<Rightarrow> st''))"

section \<open>The classical scheduler\<close>

text \<open>
  \<open>eevdf_enqueue\<close> of the classical EEVDF scheduler of the repository, with its
  \<open>struct eevdf_ctx\<close> (no capacity), its per-CPU \<open>stats\<close> counters and its single
  queue \<open>SHARED_DSQ\<close>. Comparisons are plain \<open>u64\<close> comparisons and the division
  by the weight is exact.
\<close>

abbreviation (input) SHARED_DSQ :: u64 where "SHARED_DSQ \<equiv> 0"

record classic_ctx =
  c_vtime_now :: u64
  c_total_weight :: u64

record classic_sched =
  c_global_data :: "classic_ctx option"
  c_stats :: "u32 \<Rightarrow> u64 option"
  c_dsqs :: "u64 \<Rightarrow> (u64 \<times> nat) list option"

definition classic_stat_inc :: "u32 \<Rightarrow> classic_sched \<Rightarrow> classic_sched" where
  "classic_stat_inc idx st =
     (case c_stats st idx of
        Some cnt \<Rightarrow> st\<lparr>c_stats := (c_stats st)(idx \<mapsto> cnt + 1)\<rparr>
      | None \<Rightarrow> st)"

definition classic_eevdf_enqueue ::
  "runtime \<Rightarrow> task_struct \<Rightarrow> u64 \<Rightarrow> classic_sched \<Rightarrow> (task_struct \<times> classic_sched) option" where
  "classic_eevdf_enqueue rt p enq_flags st0 =
     (let st = classic_stat_inc 1 st0
      in case c_global_data st of
           None \<Rightarrow> Some (p, st)
         | Some gdata \<Rightarrow> do {
             let slice_ns = SCX_SLICE_DFL rt;
             let v_now = c_vtime_now gdata;
             let ve = scx_dsq_vtime p;
             let ve = (if ve < v_now - slice_ns then v_now - slice_ns else ve);
             let weight = scx_weight p;
             let weight = (if weight = 0 then 1 else weight);
             d \<leftarrow> udiv (slice_ns * SCALE) (ucast weight);
             let vd = ve + d;
             let p = p\<lparr>scx_dsq_vtime := ve\<rparr>;
             Some (p, st\<lparr>c_dsqs := scx_bpf_dsq_insert_vtime p SHARED_DSQ slice_ns vd enq_flags
                                        (c_dsqs st)\<rparr>)
           })"

section \<open>The userspace agent\<close>

text \<open>
  \<open>refresh_cpu_capacities\<close> works on the same maps through file descriptors. Its
  inputs are the number of possible CPUs and, per CPU, what reading
  \<open>/sys/devices/system/cpu/cpuN/cpu_capacity\<close> gives: no file, a file from which
  \<open>fscanf("%u")\<close> reads nothing, or a number. Updating \<open>cpu_capacity\<close> (an array
  map of 512 entries) fails beyond its last index and is not checked. The function's
  log line is not modelled; it returns \<open>changed\<close> and the maps.
\<close>

datatype sysfs_file = NoFile | NoNumber | Number u32

definition read_cpu_capacity :: "sysfs_file \<Rightarrow> u32" where
  "read_cpu_capacity f = (case f of NoFile \<Rightarrow> 1024 | NoNumber \<Rightarrow> 1024 | Number cap \<Rightarrow> cap)"

definition update_cpu_capacity :: "u32 \<Rightarrow> u32 \<Rightarrow> sched \<Rightarrow> sched" where
  "update_cpu_capacity k cap st =
     (if k < 512 then st\<lparr>cpu_capacity := (cpu_capacity st)(k \<mapsto> cap)\<rparr> else st)"

definition refresh_cpu_step ::
  "(nat \<Rightarrow> sysfs_file) \<Rightarrow> nat \<Rightarrow> sched \<times> u32 \<times> bool \<Rightarrow> sched \<times> u32 \<times> bool" where
  "refresh_cpu_step sysfs cpu acc =
     (case acc of (st, max_cap, changed) \<Rightarrow>
        (let cap = read_cpu_capacity (sysfs cpu);
             k = (of_nat cpu :: u32);
             (st, changed) =
               (case cpu_capacity st k of
                  None \<Rightarrow> (update_cpu_capacity k cap st, True)
                | Some old_cap \<Rightarrow>
                    if old_cap \<noteq> cap then (update_cpu_capacity k cap st, True)
                    else (st, changed));
             max_cap = (if cap > max_cap then cap else max_cap)
         in (st, max_cap, changed)))"

definition refresh_cpu_capacities ::
  "(nat \<Rightarrow> sysfs_file) \<Rightarrow> int \<Rightarrow> sched \<Rightarrow> bool \<times> sched" where
  "refresh_cpu_capacities sysfs ncpu st0 =
     (case fold (refresh_cpu_step sysfs) [0..<nat ncpu] (st0, 0, False) of
        (st, max_cap, changed) \<Rightarrow>
          (let max_cap = (if max_cap = 0 then 1024 else max_cap);
               ctx = (case global_data st of
                        Some c \<Rightarrow> c
                      | None \<Rightarrow> \<lparr>vtime_now = 0, total_weight = 0, max_capacity = 0, pad = 0\<rparr>)
           in if max_capacity ctx \<noteq> max_cap
              then (True, st\<lparr>global_data := Some (ctx\<lparr>max_capacity := max_cap\<rparr>)\<rparr>)
              else (changed, st)))"

section \<open>Observations and example states\<close>

text \<open>
  What a handler leaves behind: the global virtual time \<open>V\<close>, the weight sum
  \<open>W\<close>, the task's \<open>dsq_vtime\<close>, and the named queues.
\<close>

definition vtime_after :: "(task_struct \<times> sched) option \<Rightarrow> u64 option" where
  "vtime_after r =
     (case r of Some (p, st) \<Rightarrow> map_option vtime_now (global_data st) | None \<Rightarrow> None)"

definition weight_sum_after :: "(task_struct \<times> sched) option \<Rightarrow> u64 option" where
  "weight_sum_after r =
     (case r of Some (p, st) \<Rightarrow> map_option total_weight (global_data st) | None \<Rightarrow> None)"

definition dsq_vtime_after :: "(task_struct \<times> sched) option \<Rightarrow> u64 option" where
  "dsq_vtime_after r = (case r of Some (p, st) \<Rightarrow> Some (scx_dsq_vtime p) | None \<Rightarrow> None)"

definition dsqs_after :: "(task_struct \<times> sched) option \<Rightarrow> u64 \<Rightarrow> (u64 \<times> nat) list option" where
  "dsqs_after r d = (case r of Some (p, st) \<Rightarrow> dsqs st d | None \<Rightarrow> None)"

text \<open>
  Concrete inputs: the kernel's runtime constants, a scheduler state with given
  \<open>V\<close>, \<open>W\<close> and \<open>max_capacity\<close>, both class queues created and empty and no
  capacity entries, and a task on CPU 0.
\<close>

definition rt_dfl :: runtime where
  "rt_dfl = \<lparr>SCX_SLICE_DFL = 20000000, select_cpu_dfl = (0, False), pick_idle_cpu = 0,
              dispatch_nr_slots = 32, smp_processor_id = 0, storage_alloc = True\<rparr>"

definition mk_sched :: "u64 \<Rightarrow> u64 \<Rightarrow> u32 \<Rightarrow> sched" where
  "mk_sched V W cap =
     \<lparr>global_data = Some \<lparr>vtime_now = V, total_weight = W, max_capacity = cap, pad = 0\<rparr>,
      cpu_capacity = (\<lambda>k. None),
      task_ctx_map = (\<lambda>k. None),
      dsqs = [EEVDF_DSQ_BIG \<mapsto> [], EEVDF_DSQ_LITTLE \<mapsto> []],
      local_dsqs = (\<lambda>k. [])\<rparr>"

definition mk_task :: "nat \<Rightarrow> u32 \<Rightarrow> u64 \<Rightarrow> task_struct" where
  "mk_task i w ve =
     \<lparr>pid = i, scx_weight = w, scx_slice = 0, scx_dsq_vtime = ve, task_cpu = 0\<rparr>"

text \<open>
  Dispatch examples on a CPU of class BIG (no capacity entry, so capacity 1024):
  BIG empty and task 7 waiting in LITTLE; and task 7 waiting in BIG.
\<close>

definition st_spill :: sched where
  "st_spill = (mk_sched 0 0 1024)\<lparr>dsqs := [EEVDF_DSQ_BIG \<mapsto> [], EEVDF_DSQ_LITTLE \<mapsto> [(5, 7)]]\<rparr>"

definition st_one :: sched where
  "st_one = (mk_sched 0 0 1024)\<lparr>dsqs := [EEVDF_DSQ_BIG \<mapsto> [(5, 7)], EEVDF_DSQ_LITTLE \<mapsto> []]\<rparr>"

text \<open>
  The locals of \<open>eevdf_enqueue\<close> as functions of its inputs: \<open>max_cap\<close>, \<open>q_max\<close>
  (the work quantum, computed in \<open>u64\<close>), \<open>min_ve\<close> (the floor) and the clamped
  \<open>ve\<close>. \<open>lag_boost\<close> and \<open>lag\<close> are the locals of \<open>desired_dsq_for_task\<close>.
\<close>

definition max_cap_of :: "eevdf_ctx \<Rightarrow> u32" where
  "max_cap_of g = (if max_capacity g \<noteq> 0 then max_capacity g else CAPACITY_SCALE)"

definition q_max_of :: "runtime \<Rightarrow> eevdf_ctx \<Rightarrow> u64" where
  "q_max_of rt g = (ucast (max_cap_of g) :: u64) * SCX_SLICE_DFL rt div CAPACITY_SCALE"

definition min_ve_of :: "runtime \<Rightarrow> eevdf_ctx \<Rightarrow> u64" where
  "min_ve_of rt g =
     (if vtime_now g > q_max_of rt g then vtime_now g - q_max_of rt g else 0)"

definition clamped_ve :: "runtime \<Rightarrow> eevdf_ctx \<Rightarrow> task_struct \<Rightarrow> u64" where
  "clamped_ve rt g p =
     (if time_before (scx_dsq_vtime p) (min_ve_of rt g) then min_ve_of rt g
      else scx_dsq_vtime p)"

definition lag_boost_of :: "runtime \<Rightarrow> eevdf_ctx \<Rightarrow> u64" where
  "lag_boost_of rt g = q_max_of rt g div LAG_BOOST_DIV + 1"

definition lag_of :: "eevdf_ctx \<Rightarrow> u64 \<Rightarrow> s64" where
  "lag_of g ve = vtime_now g - ve"

text \<open>The weight a handler works with: \<open>p->scx.weight\<close>, with 0 replaced by 1.\<close>

definition weight_of :: "u32 \<Rightarrow> u32" where
  "weight_of w = (if w = 0 then 1 else w)"

text \<open>
  \<open>svc_vtime\<close> of \<open>eevdf_stopping\<close>: the service delivered on a CPU of capacity
  \<open>cap\<close>, in virtual-time units.
\<close>

definition svc_vtime_of :: "runtime \<Rightarrow> task_struct \<Rightarrow> u32 \<Rightarrow> u64" where
  "svc_vtime_of rt p cap =
     (SCX_SLICE_DFL rt - scx_slice p) * ucast cap * SCALE div CAPACITY_SCALE"

subsection \<open>The reciprocal cache\<close>

text \<open>
  The reciprocal as the specification writes it: \<open>floor ((2^20 + w/2) / w)\<close>, at
  least 1. It is compared below with what \<open>refresh_weight_cache\<close> stores.
\<close>

definition w_inv_spec :: "u32 \<Rightarrow> int" where
  "w_inv_spec w = max 1 ((1048576 + uint w div 2) div uint w)"

text \<open>
  A task context is consistent when its cached reciprocal, if there is one, is the
  one \<open>refresh_weight_cache\<close> computes for the cached weight. The zeroed context that
  task storage hands out is consistent, and \<open>refresh_weight_cache\<close> keeps a context
  consistent.
\<close>

definition cache_consistent :: "eevdf_task_ctx \<Rightarrow> bool" where
  "cache_consistent t =
     (inv_weight t = 0 \<or>
      refresh_weight_cache (Some (t\<lparr>inv_weight := 0\<rparr>)) (weight_cached t) = Some (Some t))"

definition fresh_task_ctx :: eevdf_task_ctx where
  "fresh_task_ctx = \<lparr>weight_cached = 0, inv_weight = 0\<rparr>"

subsection \<open>Two enqueues on a homogeneous machine\<close>

text \<open>
  The heterogeneous scheduler with every entry of \<open>cpu_capacity\<close> (an array map of
  512 entries) and \<open>max_capacity\<close> equal to \<open>CAPACITY_SCALE\<close>, and the classical
  scheduler with its two counters at 0 and its shared queue created, both with the
  same \<open>V\<close> and \<open>W\<close>; two tasks enqueued one after the other, and the queue that
  results.
\<close>

definition homogeneous_sched :: "u64 \<Rightarrow> u64 \<Rightarrow> sched" where
  "homogeneous_sched V W =
     (mk_sched V W CAPACITY_SCALE)
       \<lparr>cpu_capacity := (\<lambda>k. if k < 512 then Some CAPACITY_SCALE else None)\<rparr>"

definition classic_mk_sched :: "u64 \<Rightarrow> u64 \<Rightarrow> classic_sched" where
  "classic_mk_sched V W =
     \<lparr>c_global_data = Some \<lparr>c_vtime_now = V, c_total_weight = W\<rparr>,
      c_stats = (\<lambda>k. if k < 2 then Some 0 else None),
      c_dsqs = [SHARED_DSQ \<mapsto> []]\<rparr>"

definition enqueue_both ::
  "runtime \<Rightarrow> task_struct \<Rightarrow> task_struct \<Rightarrow> sched \<Rightarrow> sched option" where
  "enqueue_both rt a b st = do {
     (a', st) \<leftarrow> eevdf_enqueue rt a 0 st;
     (b', st) \<leftarrow> eevdf_enqueue rt b 0 st;
     Some st
   }"

definition classic_enqueue_both ::
  "runtime \<Rightarrow> task_struct \<Rightarrow> task_struct \<Rightarrow> classic_sched \<Rightarrow> classic_sched option" where
  "classic_enqueue_both rt a b st = do {
     (a', st) \<leftarrow> classic_eevdf_enqueue rt a 0 st;
     (b', st) \<leftarrow> classic_eevdf_enqueue rt b 0 st;
     Some st
   }"

definition queue_after :: "sched option \<Rightarrow> u64 \<Rightarrow> (u64 \<times> nat) list" where
  "queue_after r d =
     (case r of Some st \<Rightarrow> (case dsqs st d of Some q \<Rightarrow> q | None \<Rightarrow> []) | None \<Rightarrow> [])"

definition classic_queue_after :: "classic_sched option \<Rightarrow> u64 \<Rightarrow> (u64 \<times> nat) list" where
  "classic_queue_after r d =
     (case r of Some st \<Rightarrow> (case c_dsqs st d of Some q \<Rightarrow> q | None \<Rightarrow> []) | None \<Rightarrow> [])"

subsection \<open>A machine with two classes of CPU\<close>

text \<open>
  \<open>mk_sched\<close> with the capacity table filled in: CPU 0 has capacity 512 (class
  LITTLE against \<open>max_capacity = 1024\<close>), CPU 1 has 1024 (class BIG), and the other
  entries of the 512-entry array are still 0, which \<open>get_cpu_cap\<close> reads as 1024.
\<close>

definition hybrid_sched :: "u64 \<Rightarrow> sched" where
  "hybrid_sched V =
     (mk_sched V 100 1024)
       \<lparr>cpu_capacity := (\<lambda>k. if k = 0 then Some 512 else if k = 1 then Some 1024
                              else if k < 512 then Some 0 else None)\<rparr>"

section \<open>Arithmetic of 64-bit words\<close>

lemma udiv_Some [simp]: "b \<noteq> 0 \<Longrightarrow> udiv a b = Some (a div b)"
  by (simp add: udiv_def)

lemma uint_u64_bounds: "0 \<le> uint (w :: u64)" "uint (w :: u64) < 18446744073709551616"
  using uint_lt2p [of w] by simp_all

lemma neg_le_uint: "- 9223372036854775808 \<le> uint (w :: u64)"
  by (rule order_trans [of _ 0]) simp_all

text \<open>Two's complement reading of a 64-bit word, without modular arithmetic.\<close>

lemma sint_u64:
  "sint (w :: u64) =
     (if uint w < 9223372036854775808 then uint w else uint w - 18446744073709551616)"
proof (cases "uint w < 9223372036854775808")
  case True
  have "signed_take_bit 63 (uint w) = uint w"
    using True neg_le_uint [of w] by (intro signed_take_bit_int_eq_self) simp_all
  then show ?thesis using True by (simp add: sint_uint)
next
  case False
  let ?k = "uint w - 18446744073709551616"
  have b: "uint w < 18446744073709551616" by (rule uint_u64_bounds)
  have "signed_take_bit 63 ?k = ?k"
    using False b by (intro signed_take_bit_int_eq_self) simp_all
  moreover have "signed_take_bit 63 (uint w) = signed_take_bit 63 ?k"
  proof -
    have "uint w + 9223372036854775808 = (uint w - 9223372036854775808) + 18446744073709551616"
      by simp
    then have "(uint w + 9223372036854775808) mod 18446744073709551616
             = (uint w - 9223372036854775808) mod 18446744073709551616"
      by (simp only: mod_add_self2)
    then have "take_bit 64 (uint w + 2 ^ 63) = take_bit 64 (?k + 2 ^ 63)"
      by (simp add: take_bit_eq_mod)
    then show ?thesis by (simp only: signed_take_bit_eq_take_bit_shift) simp
  qed
  ultimately show ?thesis using False by (simp add: sint_uint)
qed

lemma sint_u64_lower: "- 9223372036854775808 \<le> sint (w :: u64)"
  using uint_u64_bounds [of w] neg_le_uint [of w] unfolding sint_u64
  by (cases "uint w < 9223372036854775808") simp_all

lemma sint_u64_upper: "sint (w :: u64) < 9223372036854775808"
  using uint_u64_bounds [of w] unfolding sint_u64
  by (cases "uint w < 9223372036854775808") simp_all

lemma uint_neg_u64: "uint (- (q :: u64)) = (if q = 0 then 0 else 18446744073709551616 - uint q)"
proof -
  have "uint (0 - q) = (if uint q \<le> uint (0 :: u64) then uint (0 :: u64) - uint q
       else uint (0 :: u64) - uint q + 2 ^ LENGTH(64))"
    by (rule uint_sub_if')
  moreover have "(uint q \<le> 0) = (q = 0)"
    using uint_u64_bounds(1) [of q] by (auto simp: uint_0_iff)
  ultimately show ?thesis by simp
qed

lemma uint_add_u64: "uint ((a :: u64) + b) =
   (if uint a + uint b < 18446744073709551616 then uint a + uint b
    else uint a + uint b - 18446744073709551616)"
  using uint_plus_if' [of a b] by simp

lemma uint_sub_u64: "uint ((a :: u64) - b) =
   (if uint b \<le> uint a then uint a - uint b
    else uint a - uint b + 18446744073709551616)"
  using uint_sub_if' [of a b] by simp

lemma int_div_le: "0 \<le> (x :: int) \<Longrightarrow> x div k \<le> x"
  by (cases "x = 0") (simp_all add: int_div_le_self)

lemma uint_max_u64: "uint (- 1 :: u64) = 18446744073709551615"
  using uint_neg_u64 [of 1] by simp

lemma sint_neg_u64: "uint (q :: u64) \<le> 9223372036854775808 \<Longrightarrow> sint (- q) = - uint q"
proof (cases "q = 0")
  case True
  then show ?thesis by simp
next
  case False
  assume le: "uint q \<le> 9223372036854775808"
  have pos: "0 < uint q" using False uint_u64_bounds(1) [of q] by (simp add: uint_0_iff order_less_le)
  have u: "uint (- q) = 18446744073709551616 - uint q" using False by (simp add: uint_neg_u64)
  show ?thesis unfolding sint_u64 [of "- q"] u using le pos by simp
qed

lemma sint_pos_u64: "uint (q :: u64) < 9223372036854775808 \<Longrightarrow> sint q = uint q"
  unfolding sint_u64 by simp

lemma uint_ucast_u32 [simp]: "uint (ucast (w :: u32) :: u64) = uint w"
  by (rule uint_up_ucast) (simp add: is_up)

lemma unat_ucast_u32 [simp]: "unat (ucast (w :: u32) :: u64) = unat w"
  using uint_ucast_u32 [of w] by (simp only: unat_eq_nat_uint)

lemma ucast_u32_u64_eq_0 [simp]: "((ucast (w :: u32) :: u64) = 0) = (w = 0)"
proof
  assume "(ucast w :: u64) = 0"
  then have "uint (ucast w :: u64) = 0" by simp
  then have "uint w = 0" by (simp only: uint_ucast_u32)
  then show "w = 0" by (simp add: uint_0_iff)
qed simp

section \<open>The arithmetic helpers\<close>

lemma uint_abs_s64: "uint (abs_s64_to_u64 v) = \<bar>sint v\<bar>"
proof (cases "0 \<le>s v")
  case True
  then have "0 \<le> sint v" by (simp add: word_sle_eq)
  moreover from this have "sint v = uint v"
    using uint_u64_bounds [of v] by (simp add: sint_u64 split: if_splits)
  ultimately show ?thesis using True by (simp add: abs_s64_to_u64_def)
next
  case False
  then have neg: "sint v < 0" by (simp add: word_sle_eq)
  then have big: "\<not> uint v < 9223372036854775808" and sv: "sint v = uint v - 18446744073709551616"
    using uint_u64_bounds [of v] by (simp_all add: sint_u64 split: if_splits)
  have "- (v + 1) + 1 = - v" by simp
  moreover have "v \<noteq> 0" using big by auto
  ultimately have "uint (abs_s64_to_u64 v) = 18446744073709551616 - uint v"
    using False by (simp add: abs_s64_to_u64_def uint_neg_u64)
  then show ?thesis using sv neg by simp
qed

text \<open>
  \<open>div_signed_u64\<close> divides the magnitude and restores the sign: truncation towards
  zero. A zero denominator gives 0 (see \<open>div_signed_u64_def\<close>).
\<close>

lemma div_signed_u64_eq:
  assumes "den \<noteq> 0"
  shows "\<exists>q. div_signed_u64 num den = Some q \<and> sint q = sgn (sint num) * (\<bar>sint num\<bar> div uint den)"
proof -
  define a where "a = abs_s64_to_u64 num div den"
  have ua: "uint a = \<bar>sint num\<bar> div uint den"
    by (simp add: a_def uint_div uint_abs_s64)
  have "\<bar>sint num\<bar> div uint den \<le> \<bar>sint num\<bar>"
    by (rule int_div_le) simp
  then have le: "uint a \<le> \<bar>sint num\<bar>" using ua by simp
  show ?thesis
  proof (cases "num <s 0")
    case True
    then have neg: "sint num < 0" by (simp add: word_sless_alt)
    have "uint a \<le> 9223372036854775808" using le neg sint_u64_lower [of num] by simp
    then have "sint (- a) = - uint a" by (rule sint_neg_u64)
    then show ?thesis using assms True neg ua
      by (simp add: div_signed_u64_def a_def [symmetric] sgn_if)
  next
    case False
    then have nn: "0 \<le> sint num" by (simp add: word_sless_alt)
    have "uint a < 9223372036854775808" using le nn sint_u64_upper [of num] by simp
    then have "sint a = uint a" by (rule sint_pos_u64)
    then show ?thesis using assms False nn ua
      by (simp add: div_signed_u64_def a_def [symmetric] sgn_if)
  qed
qed

text \<open>\<open>add_signed_vtime\<close> adds a signed amount to \<open>V\<close>, saturating at both ends.\<close>

lemma uint_add_signed_vtime:
  "uint (vtime_now (add_signed_vtime g d)) =
     max 0 (min 18446744073709551615 (uint (vtime_now g) + sint d))"
proof (cases "0 \<le>s d")
  case True
  then have nn: "0 \<le> sint d" by (simp add: word_sle_eq)
  then have sd: "sint d = uint d"
    using uint_u64_bounds [of d] by (simp add: sint_u64 split: if_splits)
  have n0: "uint (NOT 0 - d) = 18446744073709551615 - uint d"
    using uint_u64_bounds [of d] by (simp add: uint_sub_u64 uint_max_u64)
  show ?thesis
    using True sd n0 uint_u64_bounds [of "vtime_now g"] uint_u64_bounds [of d]
    by (simp add: add_signed_vtime_def Let_def word_less_def uint_add_u64 uint_max_u64)
next
  case False
  then have neg: "sint d < 0" by (simp add: word_sle_eq)
  have ab: "uint (abs_s64_to_u64 d) = - sint d" using neg by (simp add: uint_abs_s64)
  show ?thesis
    using False ab neg uint_u64_bounds [of "vtime_now g"] sint_u64_lower [of d]
    by (simp add: add_signed_vtime_def Let_def word_less_def uint_sub_u64 word_le_def)
qed

lemma add_signed_vtime_others [simp]:
  "total_weight (add_signed_vtime g d) = total_weight g"
  "max_capacity (add_signed_vtime g d) = max_capacity g"
  "pad (add_signed_vtime g d) = pad g"
  by (simp_all add: add_signed_vtime_def Let_def)

section \<open>No handler divides by zero\<close>

lemma refresh_weight_cache_total: "refresh_weight_cache tctx w \<noteq> None"
  by (simp add: refresh_weight_cache_def Let_def split: option.splits)

lemma bind_total: "m \<noteq> None \<Longrightarrow> (\<And>x. f x \<noteq> None) \<Longrightarrow> Option.bind m f \<noteq> None"
  by (cases m) auto

lemma div_by_weight_cached_total: "div_by_weight_cached v w tctx \<noteq> None"
  unfolding div_by_weight_cached_def Let_def
  by (rule bind_total) (simp_all add: refresh_weight_cache_total split: option.splits)

lemma div_signed_u64_total: "div_signed_u64 num den \<noteq> None"
  by (simp add: div_signed_u64_def)

lemma desired_dsq_for_task_total: "desired_dsq_for_task rt p gdata max_cap st \<noteq> None"
  by (simp add: desired_dsq_for_task_def Let_def split: option.splits)

lemmas helper_totals = refresh_weight_cache_total div_by_weight_cached_total
  div_signed_u64_total desired_dsq_for_task_total

lemma eevdf_select_cpu_total: "eevdf_select_cpu rt p st \<noteq> None"
  by (simp add: eevdf_select_cpu_def Let_def split_def bind_eq_None_conv helper_totals
      del: not_None_eq)

lemma eevdf_enqueue_total: "eevdf_enqueue rt p f st \<noteq> None"
  by (simp add: eevdf_enqueue_def Let_def split_def bind_eq_None_conv helper_totals udiv_def
      split: option.splits del: not_None_eq)

lemma eevdf_stopping_total: "eevdf_stopping rt p st \<noteq> None"
  by (simp add: eevdf_stopping_def Let_def split_def bind_eq_None_conv helper_totals udiv_def
      split: option.splits del: not_None_eq)

lemma eevdf_set_weight_total: "eevdf_set_weight rt p w st \<noteq> None"
  by (simp add: eevdf_set_weight_def Let_def split_def bind_eq_None_conv helper_totals
      split: option.splits del: not_None_eq)

lemma eevdf_enable_total: "eevdf_enable p st \<noteq> None"
  by (simp add: eevdf_enable_def Let_def split_def bind_eq_None_conv helper_totals
      split: option.splits del: not_None_eq)

lemma eevdf_disable_total: "eevdf_disable p st \<noteq> None"
  by (simp add: eevdf_disable_def Let_def split_def bind_eq_None_conv helper_totals
      split: option.splits del: not_None_eq)

lemma eevdf_others_total:
  "eevdf_dispatch rt cpu st \<noteq> None" "eevdf_running p st \<noteq> None" "eevdf_init st \<noteq> None"
  by (simp_all add: eevdf_dispatch_def eevdf_running_def eevdf_init_def Let_def
      split: option.splits prod.splits)

text \<open>
  C10. No handler can execute a division with a zero divisor. Every division of the
  source is a \<open>udiv\<close>, which traps (\<open>None\<close>) on a zero divisor, so the claim is that
  no handler and no helper returns \<open>None\<close>, whatever the runtime inputs, the task and
  the state. The three guards the claim names: \<open>div_by_weight_cached\<close> treats weight 0
  as weight 1, \<open>div_signed_u64\<close> returns 0 for a zero denominator, and \<open>eevdf_stopping\<close>
  (which divides by \<open>total_weight\<close> only when it is non-zero) never traps.
\<close>

theorem C10_no_division_by_zero:
  "eevdf_select_cpu rt p st \<noteq> None \<and> eevdf_enqueue rt p enq_flags st \<noteq> None \<and>
   eevdf_dispatch rt cpu st \<noteq> None \<and> eevdf_running p st \<noteq> None \<and>
   eevdf_stopping rt p st \<noteq> None \<and> eevdf_set_weight rt p new_weight st \<noteq> None \<and>
   eevdf_enable p st \<noteq> None \<and> eevdf_disable p st \<noteq> None \<and> eevdf_init st \<noteq> None \<and>
   div_by_weight_cached val weight tctx \<noteq> None \<and>
   div_by_weight_cached val 0 tctx = div_by_weight_cached val 1 tctx \<and>
   div_signed_u64 num den \<noteq> None \<and> div_signed_u64 num 0 = Some 0"
proof -
  have "div_by_weight_cached val 0 tctx = div_by_weight_cached val 1 tctx"
    by (simp add: div_by_weight_cached_def)
  moreover have "div_signed_u64 num 0 = Some 0"
    by (simp add: div_signed_u64_def)
  ultimately show ?thesis
    by (simp only: eevdf_select_cpu_total eevdf_enqueue_total eevdf_stopping_total
        eevdf_set_weight_total eevdf_enable_total eevdf_disable_total eevdf_others_total
        div_by_weight_cached_total div_signed_u64_total simp_thms)
qed

theorem C10_no_division_by_zero_witness:
  "eevdf_stopping rt_dfl (mk_task 1 0 0) (mk_sched 0 0 0) \<noteq> None \<and>
   eevdf_enable (mk_task 1 0 0) (mk_sched 0 0 0) \<noteq> None \<and>
   eevdf_disable (mk_task 1 0 0) (mk_sched 0 0 0) \<noteq> None \<and>
   eevdf_set_weight rt_dfl (mk_task 1 0 0) 0 (mk_sched 0 0 0) \<noteq> None \<and>
   eevdf_enqueue rt_dfl (mk_task 1 0 0) 0 (mk_sched 0 0 0) \<noteq> None"
  using C10_no_division_by_zero [of rt_dfl "mk_task 1 0 0" "mk_sched 0 0 0" 0 0 0 0 0 None 0 0]
  by (simp only: simp_thms)

section \<open>The userspace agent leaves V and W alone\<close>

lemma refresh_cpu_step_frame:
  assumes "refresh_cpu_step sysfs cpu (st, m, c) = (st', m', c')"
  shows "global_data st' = global_data st \<and> task_ctx_map st' = task_ctx_map st \<and>
         dsqs st' = dsqs st \<and> local_dsqs st' = local_dsqs st"
  using assms
  by (auto simp: refresh_cpu_step_def update_cpu_capacity_def Let_def
           split: option.splits if_splits)

lemma refresh_fold_frame:
  assumes "fold (refresh_cpu_step sysfs) cpus (st, m, c) = (st', m', c')"
  shows "global_data st' = global_data st \<and> task_ctx_map st' = task_ctx_map st \<and>
         dsqs st' = dsqs st \<and> local_dsqs st' = local_dsqs st"
  using assms
proof (induction cpus arbitrary: st m c)
  case Nil
  then show ?case by simp
next
  case (Cons cpu cpus)
  obtain st1 m1 c1 where s: "refresh_cpu_step sysfs cpu (st, m, c) = (st1, m1, c1)"
    by (cases "refresh_cpu_step sysfs cpu (st, m, c)") auto
  from Cons.prems s have "fold (refresh_cpu_step sysfs) cpus (st1, m1, c1) = (st', m', c')"
    by simp
  from Cons.IH [OF this] refresh_cpu_step_frame [OF s] show ?case by simp
qed

text \<open>
  C8. A capacity-refresh pass of the userspace agent never changes \<open>vtime_now\<close> and
  \<open>total_weight\<close> of \<open>global_data[0]\<close>: whatever the sysfs files hold and whatever
  the maps held, the entry it leaves is the entry it read with at most \<open>max_capacity\<close>
  replaced, and of the other maps only \<open>cpu_capacity\<close> can differ (task storage and the
  queues are untouched). The pass is taken as one step: handlers running between its read
  and its write are outside this model.
\<close>

theorem C8_agent_keeps_V_and_W:
  assumes "global_data st = Some g"
  shows "\<exists>changed st' m. refresh_cpu_capacities sysfs ncpu st = (changed, st') \<and>
           global_data st' = Some (g\<lparr>max_capacity := m\<rparr>) \<and>
           task_ctx_map st' = task_ctx_map st \<and> dsqs st' = dsqs st \<and>
           local_dsqs st' = local_dsqs st"
proof -
  obtain st1 m1 c1 where f: "fold (refresh_cpu_step sysfs) [0..<nat ncpu] (st, 0, False) = (st1, m1, c1)"
    by (cases "fold (refresh_cpu_step sysfs) [0..<nat ncpu] (st, 0, False)") auto
  note fr = refresh_fold_frame [OF f]
  have g1: "global_data st1 = Some g" using fr assms by simp
  show ?thesis
  proof (cases "max_capacity g = (if m1 = 0 then 1024 else m1)")
    case True
    then have "refresh_cpu_capacities sysfs ncpu st = (c1, st1)"
      using f g1 by (simp add: refresh_cpu_capacities_def Let_def)
    moreover have "global_data st1 = Some (g\<lparr>max_capacity := max_capacity g\<rparr>)"
      using g1 by simp
    ultimately show ?thesis using fr by blast
  next
    case False
    then have "refresh_cpu_capacities sysfs ncpu st =
                 (True, st1\<lparr>global_data := Some (g\<lparr>max_capacity := (if m1 = 0 then 1024 else m1)\<rparr>)\<rparr>)"
      using f g1 by (simp add: refresh_cpu_capacities_def Let_def)
    then show ?thesis using fr by auto
  qed
qed

theorem C8_agent_keeps_V_and_W_witness:
  "global_data (mk_sched 7 5 0) = Some \<lparr>vtime_now = 7, total_weight = 5, max_capacity = 0, pad = 0\<rparr> \<and>
   (\<exists>changed st' m. refresh_cpu_capacities (\<lambda>cpu. if cpu = 0 then Number 1024 else NoFile) 2 (mk_sched 7 5 0) = (changed, st') \<and>
      global_data st' = Some \<lparr>vtime_now = 7, total_weight = 5, max_capacity = m, pad = 0\<rparr> \<and>
      task_ctx_map st' = task_ctx_map (mk_sched 7 5 0) \<and> dsqs st' = dsqs (mk_sched 7 5 0) \<and>
      local_dsqs st' = local_dsqs (mk_sched 7 5 0))"
proof -
  have h: "global_data (mk_sched 7 5 0) = Some \<lparr>vtime_now = 7, total_weight = 5, max_capacity = 0, pad = 0\<rparr>"
    by (simp add: mk_sched_def)
  show ?thesis
    using h C8_agent_keeps_V_and_W [OF h, of "\<lambda>cpu. if cpu = 0 then Number 1024 else NoFile" 2]
    by simp
qed



section \<open>Dispatch\<close>

lemma dispatch_loop_spec:
  "unat slots \<le> 8 \<Longrightarrow>
   dispatch_loop i slots cpu own other st = dispatch_spec (unat slots - i) cpu own other st"
proof (induction i slots cpu own other st rule: dispatch_loop.induct)
  case (1 i slots cpu own other st)
  show ?case
  proof (cases "i < unat slots")
    case False
    then show ?thesis by (simp add: dispatch_loop.simps [of i])
  next
    case True
    then have lt: "i < 8" using "1.prems" by simp
    from True obtain m where m: "unat slots - i = Suc m" and m': "unat slots - (i + 1) = m"
      by (cases "unat slots - i") auto
    show ?thesis
    proof (cases "scx_bpf_dsq_move_to_local cpu own st")
      case (Pair b st1)
      show ?thesis
      proof (cases b)
        case True
        with Pair "1.IH"(1) [of b st1] lt \<open>i < unat slots\<close> "1.prems" m m'
        show ?thesis by (simp add: dispatch_loop.simps [of i])
      next
        case False
        note b = this
        show ?thesis
        proof (cases "scx_bpf_dsq_move_to_local cpu other st1")
          case (Pair b2 st2)
          note p2 = this
          show ?thesis
          proof (cases b2)
            case True
            with p2 b \<open>scx_bpf_dsq_move_to_local cpu own st = (b, st1)\<close>
              "1.IH"(2) [of b st1 b2 st2] lt \<open>i < unat slots\<close> "1.prems" m m'
            show ?thesis by (simp add: dispatch_loop.simps [of i])
          next
            case False
            with p2 b \<open>scx_bpf_dsq_move_to_local cpu own st = (b, st1)\<close> lt \<open>i < unat slots\<close> m
            show ?thesis by (simp add: dispatch_loop.simps [of i])
          qed
        qed
      qed
    qed
  qed
qed

lemma move_to_local_cases:
  "scx_bpf_dsq_move_to_local cpu d st = (b, st') \<Longrightarrow>
     (b \<and> (\<exists>x q. dsqs st d = Some (x # q) \<and>
             st' = st\<lparr>dsqs := (dsqs st)(d \<mapsto> q),
                       local_dsqs := (local_dsqs st)(cpu := local_dsqs st cpu @ [snd x])\<rparr>)) \<or>
     (\<not> b \<and> st' = st \<and> (dsqs st d = None \<or> dsqs st d = Some []))"
  by (auto simp: scx_bpf_dsq_move_to_local_def split: option.splits list.splits)

lemma dispatch_spec_local:
  "\<exists>rest. local_dsqs (dispatch_spec n cpu own other st) cpu = local_dsqs st cpu @ rest \<and> length rest \<le> n"
proof (induction n arbitrary: st)
  case 0
  then show ?case by simp
next
  case (Suc n)
  obtain b st1 where m1: "scx_bpf_dsq_move_to_local cpu own st = (b, st1)"
    by (cases "scx_bpf_dsq_move_to_local cpu own st") auto
  obtain b2 st2 where m2: "scx_bpf_dsq_move_to_local cpu other st1 = (b2, st2)"
    by (cases "scx_bpf_dsq_move_to_local cpu other st1") auto
  from Suc.IH [of st1] obtain r1 where r1:
    "local_dsqs (dispatch_spec n cpu own other st1) cpu = local_dsqs st1 cpu @ r1" "length r1 \<le> n" by blast
  from Suc.IH [of st2] obtain r2 where r2:
    "local_dsqs (dispatch_spec n cpu own other st2) cpu = local_dsqs st2 cpu @ r2" "length r2 \<le> n" by blast
  show ?case
  proof (cases b)
    case True
    with move_to_local_cases [OF m1] obtain x :: "u64 \<times> nat" where "local_dsqs st1 cpu = local_dsqs st cpu @ [snd x]"
      by auto
    with True m1 r1 show ?thesis by (intro exI [of _ "snd x # r1"]) simp
  next
    case False
    with move_to_local_cases [OF m1] have e: "st1 = st" by auto
    show ?thesis
    proof (cases b2)
      case True
      with move_to_local_cases [OF m2] e obtain x :: "u64 \<times> nat" where "local_dsqs st2 cpu = local_dsqs st cpu @ [snd x]"
        by auto
      with True False m1 m2 r2 show ?thesis by (intro exI [of _ "snd x # r2"]) simp
    next
      case b2f: False
      with move_to_local_cases [OF m2] e have "st2 = st" by auto
      with b2f False m1 m2 show ?thesis by simp
    qed
  qed
qed

lemma unat_slots_clamp:
  fixes n :: u32
  defines "s1 \<equiv> (if n = 0 then 1 else n)"
  shows "unat (if s1 > 8 then 8 else s1) = min (max 1 (unat n)) 8"
proof -
  have a: "unat s1 = max 1 (unat n)"
    by (auto simp: s1_def unat_gt_0 max_def not_less_eq_eq Suc_le_eq)
  have b: "(s1 > 8) = (unat s1 > 8)" by (simp add: word_less_nat_alt)
  show ?thesis using a b by (auto simp: min_def)
qed

lemma set_priq_insert [simp]: "set (priq_insert x q) = insert x (set q)"
  by (induction q) auto

lemma priq_insert_sorted:
  "sorted (map fst q) \<Longrightarrow> sorted (map fst (priq_insert x q))"
  by (induction q) (auto simp: not_less)

text \<open>
  C7 (as amended). \<open>eevdf_dispatch\<close> is the specification's dispatch rule run for
  \<open>n = min (max 1 runtime_slots) 8\<close> iterations (a slot count of 0 is raised to 1):
  each iteration tries the queue of the CPU's own class first, then the other class, and
  the loop stops when both fail. So at most \<open>n\<close> tasks reach the local queue, and when
  BIG is empty, LITTLE is not and the CPU is of class BIG, the first task of LITTLE is
  promoted. A queue filled by \<open>scx_bpf_dsq_insert_vtime\<close> stays in key order
  (\<open>priq_insert_sorted\<close>), so its first task has the minimum \<open>v_d\<close>.
\<close>

theorem C7_dispatch:
  fixes rt :: runtime and cpu :: s32 and st :: sched
  defines "max_cap \<equiv> (case get_ctx st of
                           Some g \<Rightarrow> if max_capacity g \<noteq> 0 then max_capacity g else CAPACITY_SCALE
                         | None \<Rightarrow> CAPACITY_SCALE)"
  defines "own \<equiv> class_dsq_id (get_cpu_cap st cpu) max_cap"
  defines "other \<equiv> (if own = EEVDF_DSQ_BIG then EEVDF_DSQ_LITTLE else EEVDF_DSQ_BIG)"
  defines "n \<equiv> min (max 1 (unat (dispatch_nr_slots rt))) DISPATCH_BATCH_MAX"
  shows "eevdf_dispatch rt cpu st = Some (dispatch_spec n cpu own other st) \<and>
         (\<exists>moved. local_dsqs (dispatch_spec n cpu own other st) cpu = local_dsqs st cpu @ moved \<and>
                   length moved \<le> n) \<and>
         (own = EEVDF_DSQ_BIG \<and> dsqs st EEVDF_DSQ_BIG = Some [] \<and>
          dsqs st EEVDF_DSQ_LITTLE = Some ((k, t) # q) \<longrightarrow>
            (\<exists>st' rest. eevdf_dispatch rt cpu st = Some st' \<and>
                         local_dsqs st' cpu = local_dsqs st cpu @ t # rest))"
proof -
  let ?s1 = "if dispatch_nr_slots rt = 0 then 1 else dispatch_nr_slots rt"
  let ?s = "if ?s1 > 8 then 8 else ?s1"
  have un: "unat ?s = n" unfolding n_def by (rule unat_slots_clamp)
  then have le: "unat ?s \<le> 8" by (simp add: n_def)
  have d: "eevdf_dispatch rt cpu st = Some (dispatch_loop 0 ?s cpu own other st)"
    by (simp add: eevdf_dispatch_def Let_def own_def other_def max_cap_def)
  have eq: "eevdf_dispatch rt cpu st = Some (dispatch_spec n cpu own other st)"
    using d dispatch_loop_spec [OF le, of 0 cpu own other st] un by simp
  have spill: "\<exists>st' rest. eevdf_dispatch rt cpu st = Some st' \<and>
                         local_dsqs st' cpu = local_dsqs st cpu @ t # rest"
    if o: "own = EEVDF_DSQ_BIG" and b: "dsqs st EEVDF_DSQ_BIG = Some []"
      and l: "dsqs st EEVDF_DSQ_LITTLE = Some ((k, t) # q)"
  proof -
    obtain m where m: "n = Suc m" by (cases n) (auto simp: n_def)
    let ?st2 = "st\<lparr>dsqs := (dsqs st)(EEVDF_DSQ_LITTLE \<mapsto> q),
                   local_dsqs := (local_dsqs st)(cpu := local_dsqs st cpu @ [t])\<rparr>"
    have m1: "scx_bpf_dsq_move_to_local cpu own st = (False, st)"
      using o b by (simp add: scx_bpf_dsq_move_to_local_def)
    have m2: "scx_bpf_dsq_move_to_local cpu other st = (True, ?st2)"
      using o l by (simp add: scx_bpf_dsq_move_to_local_def other_def)
    have "dispatch_spec n cpu own other st = dispatch_spec m cpu own other ?st2"
      using m m1 m2 by simp
    moreover obtain rest where "local_dsqs (dispatch_spec m cpu own other ?st2) cpu
        = local_dsqs ?st2 cpu @ rest"
      using dispatch_spec_local [of m cpu own other ?st2] by blast
    ultimately show ?thesis using eq by simp
  qed
  show ?thesis using eq dispatch_spec_local [of n cpu own other st] spill by blast
qed

theorem C7_dispatch_witness:
  "class_dsq_id (get_cpu_cap st_spill 0) 1024 = EEVDF_DSQ_BIG \<and>
   dsqs st_spill EEVDF_DSQ_BIG = Some [] \<and> dsqs st_spill EEVDF_DSQ_LITTLE = Some [(5, 7)] \<and>
   (\<exists>st' rest. eevdf_dispatch rt_dfl 0 st_spill = Some st' \<and> local_dsqs st' 0 = 7 # rest)"
proof -
  have h: "class_dsq_id (get_cpu_cap st_spill 0) 1024 = EEVDF_DSQ_BIG"
      "dsqs st_spill EEVDF_DSQ_BIG = Some []" "dsqs st_spill EEVDF_DSQ_LITTLE = Some [(5, 7)]"
      "get_ctx st_spill = Some \<lparr>vtime_now = 0, total_weight = 0, max_capacity = 1024, pad = 0\<rparr>"
      "local_dsqs st_spill 0 = []"
    by (simp_all add: st_spill_def mk_sched_def class_dsq_id_def get_cpu_cap_def get_ctx_def)
  show ?thesis
    using h C7_dispatch [of rt_dfl 0 st_spill 5 7 "[]"]
    by auto
qed

text \<open>
  C7 as stated fails when the runtime reports 0 slots: \<open>min (0, 8) = 0\<close> iterations
  would move nothing, but the handler raises the count to 1 and moves task 7.
\<close>

theorem C7_counterexample:
  "unat (dispatch_nr_slots (rt_dfl\<lparr>dispatch_nr_slots := 0\<rparr>)) = 0 \<and>
   map_option (\<lambda>st'. local_dsqs st' 0) (eevdf_dispatch (rt_dfl\<lparr>dispatch_nr_slots := 0\<rparr>) 0 st_one)
     = Some [7]"
  by (simp add: eevdf_dispatch_def rt_dfl_def st_one_def mk_sched_def get_ctx_def get_cpu_cap_def
      class_dsq_id_def Let_def scx_bpf_dsq_move_to_local_def dispatch_loop.simps)

section \<open>What the handlers return\<close>

lemma get_task_ctx_frame:
  "\<exists>t tm. get_task_ctx rt p c st = (t, st\<lparr>task_ctx_map := tm\<rparr>)"
proof (cases "task_ctx_map st (pid p)")
  case None
  show ?thesis
  proof (cases "c \<and> storage_alloc rt")
    case True
    then have "get_task_ctx rt p c st =
        (Some \<lparr>weight_cached = 0, inv_weight = 0\<rparr>,
         st\<lparr>task_ctx_map := (task_ctx_map st)(pid p \<mapsto> \<lparr>weight_cached = 0, inv_weight = 0\<rparr>)\<rparr>)"
      using None by (simp add: get_task_ctx_def)
    then show ?thesis by blast
  next
    case False
    then have "get_task_ctx rt p c st = (None, st\<lparr>task_ctx_map := task_ctx_map st\<rparr>)"
      using None by (simp add: get_task_ctx_def)
    then show ?thesis by blast
  qed
next
  case (Some t)
  then have "get_task_ctx rt p c st = (Some t, st\<lparr>task_ctx_map := task_ctx_map st\<rparr>)"
    by (simp add: get_task_ctx_def)
  then show ?thesis by blast
qed

lemma put_task_ctx_frame:
  "\<exists>tm'. put_task_ctx p t (st\<lparr>task_ctx_map := tm\<rparr>) = st\<lparr>task_ctx_map := tm'\<rparr>"
proof (cases t)
  case None
  then have "put_task_ctx p t (st\<lparr>task_ctx_map := tm\<rparr>) = st\<lparr>task_ctx_map := tm\<rparr>"
    by (simp add: put_task_ctx_def)
  then show ?thesis by blast
next
  case (Some a)
  then have "put_task_ctx p t (st\<lparr>task_ctx_map := tm\<rparr>) = st\<lparr>task_ctx_map := tm(pid p \<mapsto> a)\<rparr>"
    by (simp add: put_task_ctx_def)
  then show ?thesis by blast
qed

lemma desired_dsq_for_task_eq:
  "desired_dsq_for_task rt p (Some g) (max_cap_of g) st =
     Some (if lag_boost_of rt g <s lag_of g (scx_dsq_vtime p) then EEVDF_DSQ_BIG
           else if lag_of g (scx_dsq_vtime p) <s - lag_boost_of rt g then EEVDF_DSQ_LITTLE
           else class_dsq_id (get_cpu_cap st (task_cpu p)) (max_cap_of g))"
  by (simp add: desired_dsq_for_task_def lag_boost_of_def lag_of_def q_max_of_def Let_def)

lemma desired_dsq_for_task_cong:
  "cpu_capacity st' = cpu_capacity st \<Longrightarrow>
   desired_dsq_for_task rt p gdata m st' = desired_dsq_for_task rt p gdata m st"
  by (simp add: desired_dsq_for_task_def get_cpu_cap_def Let_def split: option.splits)

text \<open>What \<open>eevdf_enqueue\<close> returns when the global entry is there.\<close>

lemma eevdf_enqueue_result:
  assumes g: "global_data st = Some g"
  shows "\<exists>d tm dsq.
           eevdf_enqueue rt p f st =
             Some (p\<lparr>scx_dsq_vtime := clamped_ve rt g p\<rparr>,
                   st\<lparr>task_ctx_map := tm,
                      dsqs := scx_bpf_dsq_insert_vtime (p\<lparr>scx_dsq_vtime := clamped_ve rt g p\<rparr>) dsq
                                (SCX_SLICE_DFL rt) (clamped_ve rt g p + d) f (dsqs st)\<rparr>) \<and>
           desired_dsq_for_task rt (p\<lparr>scx_dsq_vtime := clamped_ve rt g p\<rparr>) (Some g)
             (max_cap_of g) st = Some dsq"
proof -
  obtain t0 tm0 where gt: "get_task_ctx rt p True st = (t0, st\<lparr>task_ctx_map := tm0\<rparr>)"
    using get_task_ctx_frame by blast
  obtain t1 where r1: "refresh_weight_cache t0 (weight_of (scx_weight p)) = Some t1"
    using refresh_weight_cache_total by blast
  obtain d t2 where r2: "div_by_weight_cached (q_max_of rt g * SCALE) (weight_of (scx_weight p)) t1 = Some (d, t2)"
    using div_by_weight_cached_total by (metis not_None_eq surj_pair)
  let ?p = "p\<lparr>scx_dsq_vtime := clamped_ve rt g p\<rparr>"
  obtain tm where pt: "put_task_ctx ?p t2 (st\<lparr>task_ctx_map := tm0\<rparr>) = st\<lparr>task_ctx_map := tm\<rparr>"
    using put_task_ctx_frame by blast
  obtain dsq where ds: "desired_dsq_for_task rt ?p (Some g) (max_cap_of g) st = Some dsq"
    using desired_dsq_for_task_total by blast
  have ds': "desired_dsq_for_task rt ?p (Some g) (max_cap_of g) (st\<lparr>task_ctx_map := tm\<rparr>) = Some dsq"
    using ds by (simp add: desired_dsq_for_task_cong [of "st\<lparr>task_ctx_map := tm\<rparr>" st])
  have "eevdf_enqueue rt p f st =
          Some (?p, st\<lparr>task_ctx_map := tm,
                    dsqs := scx_bpf_dsq_insert_vtime ?p dsq (SCX_SLICE_DFL rt)
                              (clamped_ve rt g p + d) f (dsqs st)\<rparr>)"
    using g gt r1 r2 pt ds'
    unfolding clamped_ve_def min_ve_of_def q_max_of_def max_cap_of_def weight_of_def
    by (simp add: eevdf_enqueue_def get_ctx_def Let_def split del: if_split cong: if_cong)
  then show ?thesis using ds by blast
qed

lemma eevdf_stopping_result:
  fixes rt p st
  defines "svc \<equiv> svc_vtime_of rt p (get_cpu_cap st (smp_processor_id rt))"
  shows "\<exists>d t t' tm.
           div_by_weight_cached svc (weight_of (scx_weight p)) t = Some (d, t') \<and>
           eevdf_stopping rt p st =
             Some (p\<lparr>scx_dsq_vtime := scx_dsq_vtime p + d\<rparr>,
                   st\<lparr>task_ctx_map := tm,
                      global_data :=
                        (case global_data st of
                           Some g \<Rightarrow>
                             Some (if total_weight g \<noteq> 0
                                   then g\<lparr>vtime_now := vtime_now g + svc div total_weight g\<rparr>
                                   else g)
                         | None \<Rightarrow> None)\<rparr>)"
proof -
  obtain t0 tm0 where gt: "get_task_ctx rt p False st = (t0, st\<lparr>task_ctx_map := tm0\<rparr>)"
    using get_task_ctx_frame by blast
  obtain d t2 where r2: "div_by_weight_cached svc (weight_of (scx_weight p)) t0 = Some (d, t2)"
    using div_by_weight_cached_total by (metis not_None_eq surj_pair)
  let ?p = "p\<lparr>scx_dsq_vtime := scx_dsq_vtime p + d\<rparr>"
  obtain tm where pt: "put_task_ctx ?p t2 (st\<lparr>task_ctx_map := tm0\<rparr>) = st\<lparr>task_ctx_map := tm\<rparr>"
    using put_task_ctx_frame by blast
  have "eevdf_stopping rt p st =
          Some (?p, st\<lparr>task_ctx_map := tm,
                      global_data :=
                        (case global_data st of
                           Some g \<Rightarrow>
                             Some (if total_weight g \<noteq> 0
                                   then g\<lparr>vtime_now := vtime_now g + svc div total_weight g\<rparr>
                                   else g)
                         | None \<Rightarrow> None)\<rparr>)"
  proof (cases "global_data st")
    case None
    then have "st\<lparr>task_ctx_map := tm, global_data := None\<rparr> = st\<lparr>task_ctx_map := tm\<rparr>"
      by simp
    then show ?thesis
      using None gt r2 pt unfolding svc_def svc_vtime_of_def weight_of_def
      by (simp add: eevdf_stopping_def get_ctx_def Let_def split del: if_split cong: if_cong)
  next
    case (Some g)
    show ?thesis
    proof (cases "total_weight g = 0")
      case True
      have "st\<lparr>task_ctx_map := tm, global_data := Some g\<rparr> = st\<lparr>task_ctx_map := tm\<rparr>"
        using Some by simp
      then show ?thesis
        using Some True gt r2 pt unfolding svc_def svc_vtime_of_def weight_of_def
        by (simp add: eevdf_stopping_def get_ctx_def Let_def split del: if_split cong: if_cong)
    next
      case False
      then show ?thesis
        using Some gt r2 pt unfolding svc_def svc_vtime_of_def weight_of_def
        by (simp add: eevdf_stopping_def get_ctx_def Let_def split del: if_split cong: if_cong)
    qed
  qed
  then show ?thesis using r2 by blast
qed

text \<open>
  The same results with nothing left open: the task context the handler starts
  from, the quotient it adds and the queue it chooses are the values of the
  helpers at the handler's own arguments.
\<close>

lemma get_task_ctx_fst:
  "fst (get_task_ctx rt p c st) =
     (case task_ctx_map st (pid p) of
        Some t \<Rightarrow> Some t
      | None \<Rightarrow> if c \<and> storage_alloc rt then Some \<lparr>weight_cached = 0, inv_weight = 0\<rparr> else None)"
  by (simp add: get_task_ctx_def split: option.splits)

lemma eevdf_enqueue_exact:
  assumes g: "global_data st = Some g"
  shows "\<exists>t1 d t2 tm dsq.
           refresh_weight_cache (fst (get_task_ctx rt p True st)) (weight_of (scx_weight p)) = Some t1 \<and>
           div_by_weight_cached (q_max_of rt g * SCALE) (weight_of (scx_weight p)) t1 = Some (d, t2) \<and>
           desired_dsq_for_task rt (p\<lparr>scx_dsq_vtime := clamped_ve rt g p\<rparr>) (Some g)
             (max_cap_of g) st = Some dsq \<and>
           eevdf_enqueue rt p f st =
             Some (p\<lparr>scx_dsq_vtime := clamped_ve rt g p\<rparr>,
                   st\<lparr>task_ctx_map := tm,
                      dsqs := scx_bpf_dsq_insert_vtime (p\<lparr>scx_dsq_vtime := clamped_ve rt g p\<rparr>) dsq
                                (SCX_SLICE_DFL rt) (clamped_ve rt g p + d) f (dsqs st)\<rparr>)"
proof -
  obtain t0 tm0 where gt: "get_task_ctx rt p True st = (t0, st\<lparr>task_ctx_map := tm0\<rparr>)"
    using get_task_ctx_frame by blast
  have t0: "fst (get_task_ctx rt p True st) = t0" by (simp add: gt)
  obtain t1 where r1: "refresh_weight_cache t0 (weight_of (scx_weight p)) = Some t1"
    using refresh_weight_cache_total by blast
  obtain d t2 where r2: "div_by_weight_cached (q_max_of rt g * SCALE) (weight_of (scx_weight p)) t1 = Some (d, t2)"
    using div_by_weight_cached_total by (metis not_None_eq surj_pair)
  let ?p = "p\<lparr>scx_dsq_vtime := clamped_ve rt g p\<rparr>"
  obtain tm where pt: "put_task_ctx ?p t2 (st\<lparr>task_ctx_map := tm0\<rparr>) = st\<lparr>task_ctx_map := tm\<rparr>"
    using put_task_ctx_frame by blast
  obtain dsq where ds: "desired_dsq_for_task rt ?p (Some g) (max_cap_of g) st = Some dsq"
    using desired_dsq_for_task_total by blast
  have ds': "desired_dsq_for_task rt ?p (Some g) (max_cap_of g) (st\<lparr>task_ctx_map := tm\<rparr>) = Some dsq"
    using ds by (simp add: desired_dsq_for_task_cong [of "st\<lparr>task_ctx_map := tm\<rparr>" st])
  have "eevdf_enqueue rt p f st =
          Some (?p, st\<lparr>task_ctx_map := tm,
                    dsqs := scx_bpf_dsq_insert_vtime ?p dsq (SCX_SLICE_DFL rt)
                              (clamped_ve rt g p + d) f (dsqs st)\<rparr>)"
    using g gt r1 r2 pt ds'
    unfolding clamped_ve_def min_ve_of_def q_max_of_def max_cap_of_def weight_of_def
    by (simp add: eevdf_enqueue_def get_ctx_def Let_def split del: if_split cong: if_cong)
  then show ?thesis using ds r1 r2 unfolding t0 by blast
qed

lemma eevdf_stopping_exact:
  fixes rt p st
  defines "svc \<equiv> svc_vtime_of rt p (get_cpu_cap st (smp_processor_id rt))"
  shows "\<exists>d t'.
           div_by_weight_cached svc (weight_of (scx_weight p)) (task_ctx_map st (pid p)) = Some (d, t') \<and>
           dsq_vtime_after (eevdf_stopping rt p st) = Some (scx_dsq_vtime p + d)"
proof -
  have gt: "get_task_ctx rt p False st = (task_ctx_map st (pid p), st)"
    by (simp add: get_task_ctx_def split: option.splits)
  obtain d t2 where r2:
    "div_by_weight_cached svc (weight_of (scx_weight p)) (task_ctx_map st (pid p)) = Some (d, t2)"
    using div_by_weight_cached_total by (metis not_None_eq surj_pair)
  have "dsq_vtime_after (eevdf_stopping rt p st) = Some (scx_dsq_vtime p + d)"
    using gt r2 unfolding svc_def svc_vtime_of_def weight_of_def
    by (cases "global_data st"; cases "total_weight (the (global_data st)) = 0")
       (simp_all add: eevdf_stopping_def get_ctx_def Let_def dsq_vtime_after_def
          split del: if_split cong: if_cong)
  then show ?thesis using r2 by blast
qed

lemma div_by_weight_cached_None:
  "div_by_weight_cached val (weight_of w) None = Some (val div ucast (weight_of w), None)"
  by (simp add: div_by_weight_cached_def refresh_weight_cache_def weight_of_def)

lemma get_cpu_cap_uint:
  "uint (get_cpu_cap st c) =
     (case cpu_capacity st c of Some cap \<Rightarrow> if cap = 0 then 1024 else uint cap | None \<Rightarrow> 1024)"
  by (simp add: get_cpu_cap_def split: option.splits)

lemma eevdf_set_weight_result:
  fixes rt p st g new_weight
  assumes g: "global_data st = Some g"
  defines "old_sum \<equiv> total_weight g"
  defines "new_sum \<equiv> (if ucast (weight_of (scx_weight p)) \<le> old_sum
                        then old_sum - ucast (weight_of (scx_weight p)) else old_sum)
                       + ucast (weight_of new_weight)"
  defines "lag \<equiv> lag_of g (scx_dsq_vtime p)"
  shows "\<exists>tm a b.
           div_signed_u64 lag old_sum = Some a \<and> div_signed_u64 lag new_sum = Some b \<and>
           eevdf_set_weight rt p new_weight st =
             Some (p, st\<lparr>task_ctx_map := tm,
                         global_data :=
                           Some (if old_sum = 0 \<or> new_sum = 0 then g\<lparr>total_weight := new_sum\<rparr>
                                 else add_signed_vtime (g\<lparr>total_weight := new_sum\<rparr>) (a - b))\<rparr>)"
proof -
  obtain t0 tm0 where gt: "get_task_ctx rt p True st = (t0, st\<lparr>task_ctx_map := tm0\<rparr>)"
    using get_task_ctx_frame by blast
  obtain t1 where r1: "refresh_weight_cache t0 (weight_of new_weight) = Some t1"
    using refresh_weight_cache_total by blast
  obtain tm where pt: "put_task_ctx p t1 (st\<lparr>task_ctx_map := tm0\<rparr>) = st\<lparr>task_ctx_map := tm\<rparr>"
    using put_task_ctx_frame by blast
  obtain a where a: "div_signed_u64 lag old_sum = Some a"
    using div_signed_u64_total by blast
  obtain b where b: "div_signed_u64 lag new_sum = Some b"
    using div_signed_u64_total by blast
  have "eevdf_set_weight rt p new_weight st =
             Some (p, st\<lparr>task_ctx_map := tm,
                         global_data :=
                           Some (if old_sum = 0 \<or> new_sum = 0 then g\<lparr>total_weight := new_sum\<rparr>
                                 else add_signed_vtime (g\<lparr>total_weight := new_sum\<rparr>) (a - b))\<rparr>)"
  proof (cases "ucast (weight_of (scx_weight p)) \<le> old_sum")
    case True
    then show ?thesis
      using g gt r1 pt a b unfolding old_sum_def new_sum_def lag_def lag_of_def weight_of_def
      by (simp add: eevdf_set_weight_def get_ctx_def Let_def cong: if_cong)
  next
    case False
    then show ?thesis
      using g gt r1 pt a b unfolding old_sum_def new_sum_def lag_def lag_of_def weight_of_def
      by (simp add: eevdf_set_weight_def get_ctx_def Let_def cong: if_cong)
  qed
  then show ?thesis using a b by blast
qed

lemma eevdf_enable_result:
  fixes p st g
  assumes g: "global_data st = Some g"
  defines "ve \<equiv> (if scx_dsq_vtime p = 0 then vtime_now g else scx_dsq_vtime p)"
  defines "new_sum \<equiv> total_weight g + ucast (weight_of (scx_weight p))"
  shows "\<exists>q. div_signed_u64 (lag_of g ve) new_sum = Some q \<and>
           eevdf_enable p st =
             Some (p\<lparr>scx_dsq_vtime := ve\<rparr>,
                   st\<lparr>global_data :=
                        Some ((if new_sum \<noteq> 0 then add_signed_vtime g (- q) else g)
                              \<lparr>total_weight := new_sum\<rparr>)\<rparr>)"
proof -
  obtain q where q: "div_signed_u64 (lag_of g ve) new_sum = Some q"
    using div_signed_u64_total by blast
  have "eevdf_enable p st =
             Some (p\<lparr>scx_dsq_vtime := ve\<rparr>,
                   st\<lparr>global_data :=
                        Some ((if new_sum \<noteq> 0 then add_signed_vtime g (- q) else g)
                              \<lparr>total_weight := new_sum\<rparr>)\<rparr>)"
  proof (cases "scx_dsq_vtime p = 0")
    case True
    then have ve: "ve = vtime_now g" by (simp add: ve_def)
    show ?thesis
      using g q True unfolding ve new_sum_def lag_of_def weight_of_def
      by (simp add: eevdf_enable_def get_ctx_def Let_def cong: if_cong)
  next
    case False
    then have ve: "ve = scx_dsq_vtime p" by (simp add: ve_def)
    have pp: "p\<lparr>scx_dsq_vtime := scx_dsq_vtime p\<rparr> = p" by simp
    show ?thesis
      using g q False unfolding ve pp new_sum_def lag_of_def weight_of_def
      by (simp add: eevdf_enable_def get_ctx_def Let_def cong: if_cong)
  qed
  then show ?thesis using q by blast
qed

lemma eevdf_disable_result:
  fixes p st g
  assumes g: "global_data st = Some g"
  defines "w \<equiv> (ucast (weight_of (scx_weight p)) :: u64)"
  defines "new_sum \<equiv> (if w \<le> total_weight g then total_weight g - w else 0)"
  shows "\<exists>q. div_signed_u64 (lag_of g (scx_dsq_vtime p)) new_sum = Some q \<and>
           eevdf_disable p st =
             Some (p, st\<lparr>global_data :=
                            Some (if new_sum \<noteq> 0
                                  then add_signed_vtime (g\<lparr>total_weight := new_sum\<rparr>) q
                                  else g\<lparr>total_weight := new_sum\<rparr>),
                          task_ctx_map := (task_ctx_map st)(pid p := None)\<rparr>)"
proof -
  obtain q where q: "div_signed_u64 (lag_of g (scx_dsq_vtime p)) new_sum = Some q"
    using div_signed_u64_total by blast
  have "eevdf_disable p st =
             Some (p, st\<lparr>global_data :=
                            Some (if new_sum \<noteq> 0
                                  then add_signed_vtime (g\<lparr>total_weight := new_sum\<rparr>) q
                                  else g\<lparr>total_weight := new_sum\<rparr>),
                          task_ctx_map := (task_ctx_map st)(pid p := None)\<rparr>)"
    using g q unfolding new_sum_def w_def lag_of_def weight_of_def
    by (simp add: eevdf_disable_def get_ctx_def Let_def cong: if_cong)
  then show ?thesis using q by blast
qed

section \<open>Weight change\<close>

lemma reindex_delta_range:
  fixes l W_old W_new w_old w_new :: int
  assumes l: "- 9223372036854775808 \<le> l" "l < 9223372036854775808"
    and W: "0 < W_old" and w: "1 \<le> w_new" "w_old < 4294967296"
    and Wn: "W_new = (if w_old \<le> W_old then W_old - w_old else W_old) + w_new"
  shows "- 9223372036854775808 \<le> sgn l * (\<bar>l\<bar> div W_old) - sgn l * (\<bar>l\<bar> div W_new) \<and>
         sgn l * (\<bar>l\<bar> div W_old) - sgn l * (\<bar>l\<bar> div W_new) < 9223372036854775808"
proof -
  define x where "x = \<bar>l\<bar> div W_old"
  define y where "y = \<bar>l\<bar> div W_new"
  have Wn1: "1 \<le> W_new" using Wn w W by (simp split: if_splits)
  have x0: "0 \<le> x" using W by (simp add: x_def pos_imp_zdiv_nonneg_iff)
  have y0: "0 \<le> y" using Wn1 by (simp add: y_def pos_imp_zdiv_nonneg_iff)
  have xl: "x \<le> \<bar>l\<bar>" unfolding x_def by (rule int_div_le) simp
  have yl: "y \<le> \<bar>l\<bar>" unfolding y_def by (rule int_div_le) simp
  show ?thesis
  proof (cases "0 \<le> l")
    case True
    then have "sgn l * x - sgn l * y = (if l = 0 then 0 else x - y)" by (simp add: sgn_if)
    then show ?thesis
      using True l x0 y0 xl yl unfolding x_def [symmetric] y_def [symmetric]
      by (auto split: if_splits)
  next
    case False
    then have neg: "l < 0" by simp
    then have e: "sgn l * x - sgn l * y = y - x" by (simp add: sgn_if)
    have al: "\<bar>l\<bar> \<le> 9223372036854775808" using l neg by simp
    have up: "y - x < 9223372036854775808"
    proof (cases "\<bar>l\<bar> = 9223372036854775808")
      case False
      then show ?thesis using al yl x0 by simp
    next
      case True
      show ?thesis
      proof (cases "2 \<le> W_new")
        case True
        have "y \<le> \<bar>l\<bar> div 2" unfolding y_def
          by (rule zdiv_mono2) (use True in simp_all)
        then show ?thesis using al x0 by simp
      next
        case False
        then have "W_new = 1" using Wn1 by simp
        then have "W_old \<le> w_old" using Wn w W by (simp split: if_splits)
        then have Wo: "W_old \<le> 4294967296" using w by simp
        have "\<bar>l\<bar> div 4294967296 \<le> x" unfolding x_def
          by (rule zdiv_mono2) (use W Wo in simp_all)
        then have "1 \<le> x" using \<open>\<bar>l\<bar> = 9223372036854775808\<close> by simp
        then show ?thesis using yl al by simp
      qed
    qed
    show ?thesis unfolding x_def [symmetric] y_def [symmetric] e
      using up x0 y0 xl al by simp
  qed
qed

lemma sint_diff_u64:
  "- 9223372036854775808 \<le> sint (a :: u64) - sint (b :: u64) \<Longrightarrow>
   sint a - sint b < 9223372036854775808 \<Longrightarrow> sint (a - b) = sint a - sint b"
  by (simp add: sint_word_diff signed_take_bit_int_eq_self)

lemma uint_u32_bounds: "0 \<le> uint (w :: u32)" "uint (w :: u32) < 4294967296"
  using uint_lt2p [of w] by simp_all

lemma uint_weight_of: "1 \<le> uint (weight_of w)" "uint (weight_of w) < 4294967296"
proof -
  have "weight_of w \<noteq> 0" by (simp add: weight_of_def)
  then have "uint (weight_of w) \<noteq> 0" by (simp add: uint_0_iff)
  then show "1 \<le> uint (weight_of w)" using uint_u32_bounds(1) [of "weight_of w"] by linarith
  show "uint (weight_of w) < 4294967296" by (rule uint_u32_bounds)
qed

text \<open>
  C2 (as amended). With \<open>w_old\<close> and \<open>w_new\<close> the task's and the new weight (0
  counted as 1), \<open>W_old = G.W\<close> and \<open>\<ell>\<close> the signed 64-bit lag \<open>G.V - v_e(p)\<close>,
  \<open>eevdf_set_weight\<close> sets \<open>G.W\<close> to \<open>W_new = W_old - w_old + w_new\<close> when
  \<open>w_old \<le> W_old\<close>, and to \<open>W_old + w_new\<close> when \<open>W_old < w_old\<close> (the subtraction
  is guarded and skipped, not saturated), provided \<open>W_new\<close> fits 64 bits. When
  \<open>W_old\<close> is positive (\<open>W_new\<close> always is) it adds
  \<open>\<Delta> = sign(\<ell>)\<cdot>(|\<ell>|/W_old) - sign(\<ell>)\<cdot>(|\<ell>|/W_new)\<close>, divisions truncating, to \<open>G.V\<close>,
  saturating at 0 and at \<open>2^64 - 1\<close>; when \<open>W_old = 0\<close> it leaves \<open>G.V\<close>.
  The witness is the specification's scenario S3: \<open>V = 1018750\<close>, \<open>W = 16\<close>.
\<close>

theorem C2_set_weight:
  fixes rt :: runtime and p :: task_struct and st :: sched and g :: eevdf_ctx and new_weight :: u32
  defines "w_old \<equiv> uint (weight_of (scx_weight p))"
    and "w_new \<equiv> uint (weight_of new_weight)"
    and "W_old \<equiv> uint (total_weight g)"
    and "l \<equiv> sint (lag_of g (scx_dsq_vtime p))"
  defines "W_new \<equiv> (if w_old \<le> W_old then W_old - w_old else W_old) + w_new"
  defines "\<Delta> \<equiv> sgn l * (\<bar>l\<bar> div W_old) - sgn l * (\<bar>l\<bar> div W_new)"
  assumes g: "global_data st = Some g" and nov: "W_new < 18446744073709551616"
  shows "map_option uint (weight_sum_after (eevdf_set_weight rt p new_weight st)) = Some W_new \<and>
         map_option uint (vtime_after (eevdf_set_weight rt p new_weight st)) =
           Some (if W_old = 0 then uint (vtime_now g)
                 else max 0 (min 18446744073709551615 (uint (vtime_now g) + \<Delta>)))"
proof -
  let ?wo = "ucast (weight_of (scx_weight p)) :: u64"
  let ?wn = "ucast (weight_of new_weight) :: u64"
  let ?base = "if ?wo \<le> total_weight g then total_weight g - ?wo else total_weight g"
  let ?ns = "?base + ?wn"
  have wb: "1 \<le> w_old" "w_old < 4294967296" "1 \<le> w_new" "w_new < 4294967296"
    unfolding w_old_def w_new_def by (rule uint_weight_of)+
  have le: "(?wo \<le> total_weight g) = (w_old \<le> W_old)"
    by (simp add: word_le_def w_old_def W_old_def)
  have ub: "uint ?base = (if w_old \<le> W_old then W_old - w_old else W_old)"
    by (simp add: le uint_sub_u64 w_old_def W_old_def)
  have uns: "uint ?ns = W_new"
    using nov unfolding W_new_def uint_add_u64 [of ?base ?wn] ub by (simp add: w_new_def)
  have W0: "0 \<le> W_old" by (simp add: W_old_def)
  have Wn1: "1 \<le> W_new" using wb W0 unfolding W_new_def by (simp split: if_splits)
  have ns0: "?ns \<noteq> 0" using uns Wn1 by auto
  from eevdf_set_weight_result [OF g, of p new_weight rt]
  obtain tm a b where
    a: "div_signed_u64 (lag_of g (scx_dsq_vtime p)) (total_weight g) = Some a" and
    b: "div_signed_u64 (lag_of g (scx_dsq_vtime p)) ?ns = Some b" and
    r: "eevdf_set_weight rt p new_weight st =
          Some (p, st\<lparr>task_ctx_map := tm,
                      global_data :=
                        Some (if total_weight g = 0 \<or> ?ns = 0 then g\<lparr>total_weight := ?ns\<rparr>
                              else add_signed_vtime (g\<lparr>total_weight := ?ns\<rparr>) (a - b))\<rparr>)"
    by blast
  have W: "map_option uint (weight_sum_after (eevdf_set_weight rt p new_weight st)) = Some W_new"
    using uns by (simp add: r weight_sum_after_def)
  have V: "map_option uint (vtime_after (eevdf_set_weight rt p new_weight st)) =
           Some (if W_old = 0 then uint (vtime_now g)
                 else max 0 (min 18446744073709551615 (uint (vtime_now g) + \<Delta>)))"
  proof (cases "total_weight g = 0")
    case True
    then have "W_old = 0" by (simp add: W_old_def)
    then show ?thesis using True by (simp add: r vtime_after_def)
  next
    case False
    then have Wpos: "0 < W_old" using uint_u64_bounds(1) [of "total_weight g"]
      by (simp add: W_old_def uint_0_iff order_less_le)
    from div_signed_u64_eq [OF False, of "lag_of g (scx_dsq_vtime p)"] a
    have sa: "sint a = sgn l * (\<bar>l\<bar> div W_old)" by (simp add: l_def W_old_def)
    from div_signed_u64_eq [OF ns0, of "lag_of g (scx_dsq_vtime p)"] b
    have sb: "sint b = sgn l * (\<bar>l\<bar> div W_new)" by (simp add: l_def uns)
    have rng: "- 9223372036854775808 \<le> \<Delta> \<and> \<Delta> < 9223372036854775808"
      unfolding \<Delta>_def
      by (rule reindex_delta_range [where w_old = w_old and w_new = w_new])
         (use wb Wpos in \<open>simp_all add: l_def sint_u64_lower sint_u64_upper W_new_def\<close>)
    have sd: "sint (a - b) = \<Delta>"
      using rng sint_diff_u64 [of a b] by (simp add: sa sb \<Delta>_def)
    show ?thesis
      using False ns0 Wpos sd
      by (simp add: r vtime_after_def uint_add_signed_vtime)
  qed
  show ?thesis using W V by simp
qed

lemmas handler_eval =
  rt_dfl_def mk_sched_def mk_task_def get_ctx_def get_cpu_cap_def get_task_ctx_def put_task_ctx_def
  refresh_weight_cache_def div_by_weight_cached_def abs_s64_to_u64_def div_signed_u64_def
  add_signed_vtime_def class_dsq_id_def desired_dsq_for_task_def time_before_def
  scx_bpf_dsq_insert_vtime_def vtime_after_def weight_sum_after_def dsq_vtime_after_def
  dsqs_after_def Let_def word_sle_eq word_sless_alt word_le_def word_less_def

theorem C2_set_weight_witness:
  "global_data (mk_sched 1000000 10 1024) =
     Some \<lparr>vtime_now = 1000000, total_weight = 10, max_capacity = 1024, pad = 0\<rparr> \<and>
   map_option uint (weight_sum_after
     (eevdf_set_weight rt_dfl (mk_task 1 2 500000) 8 (mk_sched 1000000 10 1024))) = Some 16 \<and>
   map_option uint (vtime_after
     (eevdf_set_weight rt_dfl (mk_task 1 2 500000) 8 (mk_sched 1000000 10 1024))) = Some 1018750"
proof -
  have h: "global_data (mk_sched 1000000 10 1024) =
     Some \<lparr>vtime_now = 1000000, total_weight = 10, max_capacity = 1024, pad = 0\<rparr>"
    by (simp add: mk_sched_def)
  show ?thesis
    using h C2_set_weight [OF h, of "mk_task 1 2 500000" 8 rt_dfl]
    by (simp add: mk_task_def weight_of_def lag_of_def)
qed

text \<open>
  C2 as stated fails when the weight sum is below the task's weight: with \<open>W = 1\<close>,
  \<open>w_old = 2\<close>, \<open>w_new = 8\<close> the claim's \<open>W_new = 1 - 2 + 8 = 7\<close> is positive, but
  the handler skips the subtraction and sets \<open>W = 9\<close>.
\<close>

theorem C2_counterexample:
  "weight_sum_after (eevdf_set_weight rt_dfl (mk_task 1 2 500000) 8 (mk_sched 1000000 1 1024))
     = Some 9"
  by (simp add: eevdf_set_weight_def handler_eval)

section \<open>Virtual time across the handlers\<close>

lemma clamp_decrease:
  fixes v s :: int
  shows "0 \<le> v \<Longrightarrow> v < 18446744073709551616 \<Longrightarrow>
         v - max 0 (min 18446744073709551615 (v + s)) \<le> max 0 (- s)"
  by (simp add: max_def min_def)

lemma add_signed_vtime_decrease:
  "uint (vtime_now g) - uint (vtime_now (add_signed_vtime g d)) \<le> max 0 (- sint d)"
  unfolding uint_add_signed_vtime by (rule clamp_decrease) (rule uint_u64_bounds)+

lemma div_signed_u64_abs:
  assumes "div_signed_u64 num den = Some q"
  shows "\<bar>sint q\<bar> = \<bar>sint num\<bar> div uint den"
proof (cases "den = 0")
  case True
  then show ?thesis using assms by (simp add: div_signed_u64_def)
next
  case False
  from div_signed_u64_eq [OF False, of num] assms
  have e: "sint q = sgn (sint num) * (\<bar>sint num\<bar> div uint den)" by simp
  have "0 \<le> \<bar>sint num\<bar> div uint den" by (simp add: pos_imp_zdiv_nonneg_iff div_int_pos_iff)
  then show ?thesis unfolding e by (simp add: abs_mult sgn_if)
qed

lemma neg_sint_neg_le: "- sint (- (q :: u64)) \<le> \<bar>sint q\<bar>"
proof (cases "q = 0")
  case True
  then show ?thesis by simp
next
  case False
  then have u: "uint (- q) = 18446744073709551616 - uint q" by (simp add: uint_neg_u64)
  show ?thesis
    using uint_u64_bounds [of q]
    unfolding sint_u64 [of "- q"] sint_u64 [of q] u
    by (simp split: if_splits)
qed

lemma neg_sint_diff_le:
  fixes a b :: u64
  assumes a: "\<bar>sint a\<bar> \<le> m" and b: "\<bar>sint b\<bar> \<le> m"
    and s: "(0 \<le> sint a \<and> 0 \<le> sint b) \<or> (sint a \<le> 0 \<and> sint b \<le> 0)"
  shows "- sint (a - b) \<le> m"
proof (cases "m < 9223372036854775808")
  case False
  then show ?thesis using sint_u64_lower [of "a - b"] by simp
next
  case True
  have "sint (a - b) = sint a - sint b"
    by (rule sint_diff_u64) (use a b s True in auto)
  then show ?thesis using a b s by auto
qed

lemma small_diff_range:
  fixes a b :: int
  shows "0 \<le> a \<Longrightarrow> 0 \<le> b \<Longrightarrow> a < 9223372036854775808 \<Longrightarrow> b < 9223372036854775808 \<Longrightarrow>
         - 9223372036854775808 \<le> a - b \<and> a - b < 9223372036854775808"
  by simp

lemma time_before_small:
  assumes "uint a < 9223372036854775808" "uint b < 9223372036854775808"
  shows "time_before a b = (a < b)"
proof -
  have sa: "sint a = uint a" and sb: "sint b = uint b"
    using assms by (simp_all add: sint_pos_u64)
  have "- 9223372036854775808 \<le> uint a - uint b \<and> uint a - uint b < 9223372036854775808"
    by (rule small_diff_range) (use assms in \<open>simp_all add: uint_u64_bounds\<close>)
  then have "sint (a - b) = sint a - sint b"
    unfolding sa [symmetric] sb [symmetric] by (intro sint_diff_u64) simp_all
  then show ?thesis
    by (simp add: time_before_def word_sless_alt sa sb word_less_def)
qed

lemma move_to_local_global [simp]:
  "global_data (snd (scx_bpf_dsq_move_to_local cpu d st)) = global_data st"
  by (simp add: scx_bpf_dsq_move_to_local_def split: option.splits list.splits)

lemma dispatch_spec_global: "global_data (dispatch_spec n cpu a b st) = global_data st"
proof (induction n arbitrary: st)
  case 0
  then show ?case by simp
next
  case (Suc n)
  have g1: "global_data (snd (scx_bpf_dsq_move_to_local cpu a st)) = global_data st" by simp
  have g2: "global_data (snd (scx_bpf_dsq_move_to_local cpu b (snd (scx_bpf_dsq_move_to_local cpu a st))))
             = global_data st" by simp
  show ?case
    using Suc.IH g1 g2 by (simp add: split_def split: bool.splits prod.splits)
qed

lemma eevdf_dispatch_global:
  "\<exists>st'. eevdf_dispatch rt cpu st = Some st' \<and> global_data st' = global_data st"
proof -
  let ?s1 = "if dispatch_nr_slots rt = 0 then 1 else dispatch_nr_slots rt"
  let ?s = "if ?s1 > 8 then 8 else ?s1"
  have "unat ?s = min (max 1 (unat (dispatch_nr_slots rt))) 8" by (rule unat_slots_clamp)
  then have le: "unat ?s \<le> 8" by simp
  show ?thesis
    by (simp add: eevdf_dispatch_def Let_def dispatch_loop_spec [OF le] dispatch_spec_global)
qed

text \<open>
  C1 (as amended). With the global entry present, \<open>V = G.V\<close> at entry:
  \<^item> \<open>eevdf_enqueue\<close> and \<open>eevdf_dispatch\<close> leave \<open>V\<close> (dispatch: the whole entry)
    unchanged;
  \<^item> \<open>eevdf_running\<close> sets \<open>V\<close> to the task's \<open>dsq_vtime\<close> exactly when \<open>V\<close> is
    before it in the wrap-around order of \<open>time_before\<close>, so \<open>V\<close> does not decrease
    when both are below \<open>2^63\<close>;
  \<^item> \<open>eevdf_stopping\<close> adds \<open>svc_vtime / W\<close> (nothing when \<open>W = 0\<close>) with 64-bit
    wrap-around, so \<open>V\<close> does not decrease unless the sum passes \<open>2^64 - 1\<close>;
  \<^item> \<open>eevdf_disable\<close> and \<open>eevdf_enable\<close> may decrease \<open>V\<close>, by at most
    \<open>|\<ell>| / W_new\<close>, and \<open>eevdf_set_weight\<close> by at most the larger of
    \<open>|\<ell>| / W_old\<close> and \<open>|\<ell>| / W_new\<close>,
  where \<open>\<ell>\<close> is the signed 64-bit lag the handler computes and \<open>W_new\<close> the weight
  sum it stores (a quotient by 0 is 0: \<open>V\<close> is then unchanged).
\<close>

theorem C1_virtual_time:
  fixes rt :: runtime and p :: task_struct and st :: sched and g :: eevdf_ctx
    and enq_flags :: u64 and cpu :: s32 and new_weight :: u32
  defines "V \<equiv> vtime_now g" and "ve \<equiv> scx_dsq_vtime p" and "W \<equiv> total_weight g"
    and "w \<equiv> (ucast (weight_of (scx_weight p)) :: u64)"
  defines "dv \<equiv> (if W = 0 then 0
                   else svc_vtime_of rt p (get_cpu_cap st (smp_processor_id rt)) div W)"
    and "W_dis \<equiv> (if w \<le> W then W - w else 0)"
    and "W_en \<equiv> W + w"
    and "ve_en \<equiv> (if ve = 0 then V else ve)"
    and "W_sw \<equiv> (if w \<le> W then W - w else W) + ucast (weight_of new_weight)"
  assumes g: "global_data st = Some g"
  shows
   "vtime_after (eevdf_enqueue rt p enq_flags st) = Some V \<and>
    map_option global_data (eevdf_dispatch rt cpu st) = Some (Some g) \<and>
    vtime_after (eevdf_running p st) = Some (if time_before V ve then ve else V) \<and>
    (uint V < 9223372036854775808 \<and> uint ve < 9223372036854775808 \<longrightarrow>
       V \<le> (if time_before V ve then ve else V)) \<and>
    vtime_after (eevdf_stopping rt p st) = Some (V + dv) \<and>
    (uint V + uint dv < 18446744073709551616 \<longrightarrow> V \<le> V + dv) \<and>
    (\<exists>V'. vtime_after (eevdf_disable p st) = Some V' \<and>
          uint V - uint V' \<le> \<bar>sint (lag_of g ve)\<bar> div uint W_dis) \<and>
    (\<exists>V'. vtime_after (eevdf_enable p st) = Some V' \<and>
          uint V - uint V' \<le> \<bar>sint (lag_of g ve_en)\<bar> div uint W_en) \<and>
    (\<exists>V'. vtime_after (eevdf_set_weight rt p new_weight st) = Some V' \<and>
          uint V - uint V' \<le> max (\<bar>sint (lag_of g ve)\<bar> div uint W)
                                  (\<bar>sint (lag_of g ve)\<bar> div uint W_sw))"
proof -
  have enq: "vtime_after (eevdf_enqueue rt p enq_flags st) = Some V"
    using eevdf_enqueue_result [OF g, of rt p enq_flags] g
    by (auto simp: vtime_after_def V_def)
  have dis: "map_option global_data (eevdf_dispatch rt cpu st) = Some (Some g)"
    using eevdf_dispatch_global [of rt cpu st] g by auto
  have run: "vtime_after (eevdf_running p st) = Some (if time_before V ve then ve else V)"
    using g by (simp add: eevdf_running_def get_ctx_def vtime_after_def V_def ve_def)
  have run_mono: "V \<le> (if time_before V ve then ve else V)"
    if "uint V < 9223372036854775808" "uint ve < 9223372036854775808"
    using time_before_small [OF that] by (simp add: order_less_imp_le)
  have stop: "vtime_after (eevdf_stopping rt p st) = Some (V + dv)"
    using eevdf_stopping_result [of rt p st] g
    by (auto simp: vtime_after_def V_def dv_def W_def)
  have stop_mono: "V \<le> V + dv" if "uint V + uint dv < 18446744073709551616"
    using that by (simp add: word_le_def uint_add_u64)
  have disable: "\<exists>V'. vtime_after (eevdf_disable p st) = Some V' \<and>
          uint V - uint V' \<le> \<bar>sint (lag_of g ve)\<bar> div uint W_dis"
  proof -
    from eevdf_disable_result [OF g, of p] obtain q where
      q: "div_signed_u64 (lag_of g ve) W_dis = Some q" and
      r: "eevdf_disable p st =
           Some (p, st\<lparr>global_data :=
                          Some (if W_dis \<noteq> 0
                                then add_signed_vtime (g\<lparr>total_weight := W_dis\<rparr>) q
                                else g\<lparr>total_weight := W_dis\<rparr>),
                        task_ctx_map := (task_ctx_map st)(pid p := None)\<rparr>)"
      unfolding W_dis_def w_def W_def ve_def by blast
    have aq: "\<bar>sint q\<bar> = \<bar>sint (lag_of g ve)\<bar> div uint W_dis"
      by (rule div_signed_u64_abs [OF q])
    show ?thesis
    proof (cases "W_dis = 0")
      case True
      then show ?thesis by (simp add: r vtime_after_def V_def)
    next
      case False
      have "uint V - uint (vtime_now (add_signed_vtime (g\<lparr>total_weight := W_dis\<rparr>) q))
              \<le> max 0 (- sint q)"
        using add_signed_vtime_decrease [of "g\<lparr>total_weight := W_dis\<rparr>" q] by (simp add: V_def)
      also have "\<dots> \<le> \<bar>sint q\<bar>" by simp
      finally show ?thesis using False aq by (simp add: r vtime_after_def)
    qed
  qed
  have enable: "\<exists>V'. vtime_after (eevdf_enable p st) = Some V' \<and>
          uint V - uint V' \<le> \<bar>sint (lag_of g ve_en)\<bar> div uint W_en"
  proof -
    from eevdf_enable_result [OF g, of p] obtain q where
      q: "div_signed_u64 (lag_of g ve_en) W_en = Some q" and
      r: "eevdf_enable p st =
           Some (p\<lparr>scx_dsq_vtime := ve_en\<rparr>,
                 st\<lparr>global_data :=
                      Some ((if W_en \<noteq> 0 then add_signed_vtime g (- q) else g)
                            \<lparr>total_weight := W_en\<rparr>)\<rparr>)"
      unfolding W_en_def w_def W_def ve_en_def ve_def V_def by blast
    have aq: "\<bar>sint q\<bar> = \<bar>sint (lag_of g ve_en)\<bar> div uint W_en"
      by (rule div_signed_u64_abs [OF q])
    show ?thesis
    proof (cases "W_en = 0")
      case True
      then show ?thesis by (simp add: r vtime_after_def V_def)
    next
      case False
      have "uint V - uint (vtime_now (add_signed_vtime g (- q))) \<le> max 0 (- sint (- q))"
        using add_signed_vtime_decrease [of g "- q"] by (simp add: V_def)
      also have "\<dots> \<le> \<bar>sint q\<bar>" using neg_sint_neg_le [of q] by simp
      finally show ?thesis using False aq by (simp add: r vtime_after_def)
    qed
  qed
  have setw: "\<exists>V'. vtime_after (eevdf_set_weight rt p new_weight st) = Some V' \<and>
          uint V - uint V' \<le> max (\<bar>sint (lag_of g ve)\<bar> div uint W)
                                  (\<bar>sint (lag_of g ve)\<bar> div uint W_sw)"
  proof -
    let ?m = "max (\<bar>sint (lag_of g ve)\<bar> div uint W) (\<bar>sint (lag_of g ve)\<bar> div uint W_sw)"
    from eevdf_set_weight_result [OF g, of p new_weight rt] obtain tm a b where
      a: "div_signed_u64 (lag_of g ve) W = Some a" and
      b: "div_signed_u64 (lag_of g ve) W_sw = Some b" and
      r: "eevdf_set_weight rt p new_weight st =
          Some (p, st\<lparr>task_ctx_map := tm,
                      global_data :=
                        Some (if W = 0 \<or> W_sw = 0 then g\<lparr>total_weight := W_sw\<rparr>
                              else add_signed_vtime (g\<lparr>total_weight := W_sw\<rparr>) (a - b))\<rparr>)"
      unfolding W_sw_def w_def W_def ve_def by blast
    have m0: "0 \<le> ?m"
      by (simp add: le_max_iff_disj pos_imp_zdiv_nonneg_iff div_int_pos_iff)
    show ?thesis
    proof (cases "W = 0 \<or> W_sw = 0")
      case True
      then show ?thesis using m0 by (simp add: r vtime_after_def V_def)
    next
      case False
      then have W0: "W \<noteq> 0" and S0: "W_sw \<noteq> 0" by simp_all
      from div_signed_u64_eq [OF W0, of "lag_of g ve"] a
      have sa: "sint a = sgn (sint (lag_of g ve)) * (\<bar>sint (lag_of g ve)\<bar> div uint W)" by simp
      from div_signed_u64_eq [OF S0, of "lag_of g ve"] b
      have sb: "sint b = sgn (sint (lag_of g ve)) * (\<bar>sint (lag_of g ve)\<bar> div uint W_sw)" by simp
      have x0: "0 \<le> \<bar>sint (lag_of g ve)\<bar> div uint W"
        by (simp add: pos_imp_zdiv_nonneg_iff div_int_pos_iff)
      have y0: "0 \<le> \<bar>sint (lag_of g ve)\<bar> div uint W_sw"
        by (simp add: pos_imp_zdiv_nonneg_iff div_int_pos_iff)
      have "- sint (a - b) \<le> ?m"
      proof (rule neg_sint_diff_le)
        show "\<bar>sint a\<bar> \<le> ?m" using div_signed_u64_abs [OF a] by simp
        show "\<bar>sint b\<bar> \<le> ?m" using div_signed_u64_abs [OF b] by simp
        show "(0 \<le> sint a \<and> 0 \<le> sint b) \<or> (sint a \<le> 0 \<and> sint b \<le> 0)"
          unfolding sa sb using x0 y0 by (cases "0 \<le> sint (lag_of g ve)") (simp_all add: sgn_if)
      qed
      then have mm: "max 0 (- sint (a - b)) \<le> ?m" using m0 by simp
      have "uint V - uint (vtime_now (add_signed_vtime (g\<lparr>total_weight := W_sw\<rparr>) (a - b)))
              \<le> max 0 (- sint (a - b))"
        using add_signed_vtime_decrease [of "g\<lparr>total_weight := W_sw\<rparr>" "a - b"] by (simp add: V_def)
      then have "uint V - uint (vtime_now (add_signed_vtime (g\<lparr>total_weight := W_sw\<rparr>) (a - b)))
              \<le> ?m"
        using mm by (rule order_trans)
      then show ?thesis using False by (simp add: r vtime_after_def)
    qed
  qed
  show ?thesis
    using enq dis run run_mono stop stop_mono disable enable setw by blast
qed

text \<open>
  C1 as stated fails twice. \<open>eevdf_disable\<close> is among the handlers it says never
  decrease \<open>V\<close>, but in the specification's scenario S4 (\<open>W = 5\<close>, \<open>V = 100\<close>,
  \<open>v_e = 120\<close>, \<open>w = 2\<close>) it lowers \<open>V\<close> to 94. And \<open>eevdf_set_weight\<close> can lower
  \<open>V\<close> by more than \<open>|\<ell>| / W_new\<close>: with \<open>W = 1\<close>, \<open>V = 1000\<close>, \<open>v_e = 1100\<close>,
  \<open>w_old = 1\<close>, \<open>w_new = 100\<close> it lowers \<open>V\<close> by 99, while \<open>|\<ell>| / W_new = 1\<close>.
\<close>

theorem C1_counterexample:
  "vtime_after (eevdf_disable (mk_task 1 2 120) (mk_sched 100 5 1024)) = Some 94 \<and>
   vtime_after (eevdf_set_weight rt_dfl (mk_task 1 1 1100) 100 (mk_sched 1000 1 1024)) = Some 901"
  by (simp add: eevdf_disable_def eevdf_set_weight_def handler_eval)

theorem C1_virtual_time_witness:
  "global_data (mk_sched 100 5 1024) =
     Some \<lparr>vtime_now = 100, total_weight = 5, max_capacity = 1024, pad = 0\<rparr> \<and>
   vtime_after (eevdf_enqueue rt_dfl (mk_task 1 2 120) 0 (mk_sched 100 5 1024)) = Some 100 \<and>
   uint (100 :: u64) < 9223372036854775808 \<and> uint (120 :: u64) < 9223372036854775808 \<and>
   vtime_after (eevdf_running (mk_task 1 2 120) (mk_sched 100 5 1024)) = Some 120 \<and>
   (100 :: u64) \<le> 120 \<and>
   (\<exists>V'. vtime_after (eevdf_disable (mk_task 1 2 120) (mk_sched 100 5 1024)) = Some V' \<and>
         uint (100 :: u64) - uint V' \<le> 6)"
proof -
  have h: "global_data (mk_sched 100 5 1024) =
     Some \<lparr>vtime_now = 100, total_weight = 5, max_capacity = 1024, pad = 0\<rparr>"
    by (simp add: mk_sched_def)
  have tb: "time_before 100 120" by (simp add: time_before_def word_sless_alt)
  show ?thesis
    using h tb C1_virtual_time [OF h, of rt_dfl "mk_task 1 2 120" 0 0 8]
    by (simp add: mk_task_def weight_of_def lag_of_def word_le_def)
qed

section \<open>Enqueue: lag clamp and class routing\<close>

lemma int_div_1024_bound:
  fixes x :: int
  shows "0 \<le> x \<Longrightarrow> x < 18446744073709551616 \<Longrightarrow> x div 1024 < 18014398509481984"
  by simp

lemma uint_q_max: "uint (q_max_of rt g) < 18014398509481984"
  unfolding q_max_of_def uint_div
  using int_div_1024_bound [OF uint_u64_bounds] by simp

lemma uint_min_ve:
  "uint (min_ve_of rt g) =
     (if uint (q_max_of rt g) < uint (vtime_now g) then uint (vtime_now g) - uint (q_max_of rt g)
      else 0)"
  by (simp add: min_ve_of_def word_less_def uint_sub_u64)

lemma uint_V_minus_min_ve:
  "uint (vtime_now g - min_ve_of rt g) =
     (if uint (q_max_of rt g) < uint (vtime_now g) then uint (q_max_of rt g)
      else uint (vtime_now g))"
  by (simp add: min_ve_of_def word_less_def)

lemma V_minus_min_ve_le:
  "uint (vtime_now g - min_ve_of rt g) \<le> uint (q_max_of rt g)"
  unfolding uint_V_minus_min_ve by simp

lemma int_lag_range:
  fixes m d q :: int
  shows "0 \<le> m \<Longrightarrow> m \<le> q \<Longrightarrow> q < 18014398509481984 \<Longrightarrow> 0 \<le> d \<Longrightarrow> d < 9223372036854775808 \<Longrightarrow>
         - 9223372036854775808 \<le> m - d \<and> m - d < 9223372036854775808 \<and> m - d \<le> q"
  by simp

text \<open>After the clamp, the signed lag is at most \<open>q_max\<close>, in every state.\<close>

lemma sint_lag_clamped: "sint (lag_of g (clamped_ve rt g p)) \<le> uint (q_max_of rt g)"
proof -
  let ?A = "vtime_now g - min_ve_of rt g"
  have mA: "uint ?A \<le> uint (q_max_of rt g)" by (rule V_minus_min_ve_le)
  have qb: "uint (q_max_of rt g) < 18014398509481984" by (rule uint_q_max)
  have "uint ?A < 9223372036854775808" using mA qb by linarith
  then have sA: "sint ?A = uint ?A" by (rule sint_pos_u64)
  show ?thesis
  proof (cases "time_before (scx_dsq_vtime p) (min_ve_of rt g)")
    case True
    then show ?thesis using sA mA by (simp add: lag_of_def clamped_ve_def)
  next
    case False
    let ?B = "scx_dsq_vtime p - min_ve_of rt g"
    have nn: "0 \<le> sint ?B" using False by (simp add: time_before_def word_sless_alt)
    have r: "- 9223372036854775808 \<le> sint ?A - sint ?B \<and> sint ?A - sint ?B < 9223372036854775808
             \<and> sint ?A - sint ?B \<le> uint (q_max_of rt g)"
      unfolding sA
      by (rule int_lag_range) (use mA qb nn sint_u64_upper [of ?B] in simp_all)
    have "vtime_now g - scx_dsq_vtime p = ?A - ?B" by simp
    then have "sint (vtime_now g - scx_dsq_vtime p) = sint ?A - sint ?B"
      using r sint_diff_u64 [of ?A ?B] by simp
    then show ?thesis using False r by (simp add: lag_of_def clamped_ve_def)
  qed
qed

lemma int_sub_le:
  fixes V e F q :: int
  shows "F \<le> e \<Longrightarrow> V - F \<le> q \<Longrightarrow> V - e \<le> q"
  by simp

text \<open>Below \<open>2^63\<close> the clamp is the numeric one.\<close>

lemma clamped_ve_small:
  assumes V: "uint (vtime_now g) < 9223372036854775808"
    and e: "uint (scx_dsq_vtime p) < 9223372036854775808"
  shows "clamped_ve rt g p = max (scx_dsq_vtime p) (min_ve_of rt g) \<and>
         uint (vtime_now g) - uint (clamped_ve rt g p) \<le> uint (q_max_of rt g)"
proof -
  have Fle: "uint (min_ve_of rt g) \<le> uint (vtime_now g)"
    unfolding uint_min_ve using uint_u64_bounds(1) [of "q_max_of rt g"] uint_u64_bounds(1) [of "vtime_now g"]
    by (simp split: if_splits)
  then have F: "uint (min_ve_of rt g) < 9223372036854775808" using V by linarith
  have tb: "time_before (scx_dsq_vtime p) (min_ve_of rt g) = (scx_dsq_vtime p < min_ve_of rt g)"
    by (rule time_before_small [OF e F])
  have c: "clamped_ve rt g p = max (scx_dsq_vtime p) (min_ve_of rt g)"
    by (auto simp: clamped_ve_def tb max_def)
  have VF: "uint (vtime_now g) - uint (min_ve_of rt g) \<le> uint (q_max_of rt g)"
    unfolding uint_min_ve using uint_u64_bounds(1) [of "q_max_of rt g"] by (simp split: if_splits)
  have "uint (vtime_now g) - uint (clamped_ve rt g p) \<le> uint (q_max_of rt g)"
  proof (cases "scx_dsq_vtime p < min_ve_of rt g")
    case True
    then show ?thesis using VF by (simp add: clamped_ve_def tb)
  next
    case False
    then have "uint (min_ve_of rt g) \<le> uint (scx_dsq_vtime p)" by (simp add: word_less_def)
    then have "uint (vtime_now g) - uint (scx_dsq_vtime p) \<le> uint (q_max_of rt g)"
      using VF by (rule int_sub_le)
    then show ?thesis using False by (simp add: clamped_ve_def tb)
  qed
  then show ?thesis using c by simp
qed

lemma uint_q_max_exact:
  assumes "uint (SCX_SLICE_DFL rt) < 4294967296"
  shows "uint (q_max_of rt g) = uint (max_cap_of g) * uint (SCX_SLICE_DFL rt) div 1024"
proof -
  have "uint (max_cap_of g) * uint (SCX_SLICE_DFL rt) < 4294967296 * 4294967296"
    by (rule mult_strict_mono) (use assms uint_u32_bounds [of "max_cap_of g"] in simp_all)
  then have "uint (ucast (max_cap_of g) :: u64) * uint (SCX_SLICE_DFL rt) < 2 ^ LENGTH(64)"
    by simp
  then have "uint ((ucast (max_cap_of g) :: u64) * SCX_SLICE_DFL rt)
             = uint (ucast (max_cap_of g) :: u64) * uint (SCX_SLICE_DFL rt)"
    by (simp only: uint_mult_lem)
  then show ?thesis by (simp add: q_max_of_def uint_div)
qed

text \<open>
  C3 (as amended). With \<open>V\<close> the global virtual time at entry, \<open>Q_max\<close> the
  handler's \<open>q_max\<close> (\<open>\<rho>_max\<cdot>SLICE/CAP_SCALE\<close> for a slice below \<open>2^32\<close>) and
  \<open>V_floor = V - Q_max\<close> (0 when \<open>V \<le> Q_max\<close>): \<open>eevdf_enqueue\<close> replaces a task
  virtual time that is before \<open>V_floor\<close> in the wrap-around order of \<open>time_before\<close>
  by exactly \<open>V_floor\<close> and leaves every other one. Afterwards the signed 64-bit
  lag \<open>V - v_e\<close> is at most \<open>Q_max\<close>, in every state; and when \<open>V\<close> and \<open>v_e\<close> are
  below \<open>2^63\<close> the clamp is \<open>v_e := max v_e V_floor\<close> and \<open>V - v_e \<le> Q_max\<close> holds
  for the numbers. The deadline is computed and the task inserted after the
  clamp: the key is the clamped \<open>v_e\<close> plus \<open>d\<close>, where \<open>d\<close> is what
  \<open>div_by_weight_cached\<close> returns for \<open>Q_max * SCALE\<close>, the task's weight (0 read
  as 1) and the task's context (allocated zeroed if missing) after
  \<open>refresh_weight_cache\<close>; the task written to the queue carries the clamped
  \<open>v_e\<close>, and the queue is the one \<open>desired_dsq_for_task\<close> gives for the clamped
  task. The global entry is left as it was.
\<close>

theorem C3_lag_bound:
  fixes rt :: runtime and p :: task_struct and st :: sched and g :: eevdf_ctx and enq_flags :: u64
  defines "V \<equiv> vtime_now g" and "ve \<equiv> scx_dsq_vtime p" and "Q \<equiv> q_max_of rt g"
  defines "V_floor \<equiv> (if V > Q then V - Q else 0)"
  defines "ve' \<equiv> (if time_before ve V_floor then V_floor else ve)"
  defines "w \<equiv> (if scx_weight p = 0 then 1 else scx_weight p)"
  defines "t0 \<equiv> (case task_ctx_map st (pid p) of
                    Some t \<Rightarrow> Some t
                  | None \<Rightarrow> if storage_alloc rt
                            then Some \<lparr>weight_cached = 0, inv_weight = 0\<rparr> else None)"
  assumes g: "global_data st = Some g"
  shows "dsq_vtime_after (eevdf_enqueue rt p enq_flags st) = Some ve' \<and>
         sint (V - ve') \<le> uint Q \<and>
         (uint V < 9223372036854775808 \<and> uint ve < 9223372036854775808 \<longrightarrow>
            ve' = max ve V_floor \<and> uint V - uint ve' \<le> uint Q) \<and>
         (uint (SCX_SLICE_DFL rt) < 4294967296 \<longrightarrow>
            uint Q = uint (max_cap_of g) * uint (SCX_SLICE_DFL rt) div 1024) \<and>
         (\<exists>t1 d t2 dsq st'.
            refresh_weight_cache t0 w = Some t1 \<and>
            div_by_weight_cached (Q * SCALE) w t1 = Some (d, t2) \<and>
            desired_dsq_for_task rt (p\<lparr>scx_dsq_vtime := ve'\<rparr>) (Some g) (max_cap_of g) st
              = Some dsq \<and>
            eevdf_enqueue rt p enq_flags st = Some (p\<lparr>scx_dsq_vtime := ve'\<rparr>, st') \<and>
            global_data st' = Some g \<and>
            dsqs st' = scx_bpf_dsq_insert_vtime (p\<lparr>scx_dsq_vtime := ve'\<rparr>) dsq
                         (SCX_SLICE_DFL rt) (ve' + d) enq_flags (dsqs st))"
proof -
  have fl: "V_floor = min_ve_of rt g" by (simp add: V_floor_def min_ve_of_def V_def Q_def)
  have ve': "ve' = clamped_ve rt g p" by (simp add: ve'_def clamped_ve_def fl ve_def)
  have w: "w = weight_of (scx_weight p)" by (simp add: w_def weight_of_def)
  have t0: "t0 = fst (get_task_ctx rt p True st)" by (simp add: t0_def get_task_ctx_fst)
  obtain t1 d t2 tm dsq where
    r1: "refresh_weight_cache t0 w = Some t1" and
    r2: "div_by_weight_cached (Q * SCALE) w t1 = Some (d, t2)" and
    ds: "desired_dsq_for_task rt (p\<lparr>scx_dsq_vtime := ve'\<rparr>) (Some g) (max_cap_of g) st = Some dsq" and
    r: "eevdf_enqueue rt p enq_flags st =
       Some (p\<lparr>scx_dsq_vtime := ve'\<rparr>,
             st\<lparr>task_ctx_map := tm,
                dsqs := scx_bpf_dsq_insert_vtime (p\<lparr>scx_dsq_vtime := ve'\<rparr>) dsq
                          (SCX_SLICE_DFL rt) (ve' + d) enq_flags (dsqs st)\<rparr>)"
    using eevdf_enqueue_exact [OF g, of rt p enq_flags] unfolding ve' w t0 Q_def by blast
  have a: "dsq_vtime_after (eevdf_enqueue rt p enq_flags st) = Some ve'"
    by (simp add: r dsq_vtime_after_def)
  have b: "sint (V - ve') \<le> uint Q"
    using sint_lag_clamped [of g rt p] by (simp add: lag_of_def ve' V_def Q_def)
  have c: "ve' = max ve V_floor \<and> uint V - uint ve' \<le> uint Q"
    if "uint V < 9223372036854775808" "uint ve < 9223372036854775808"
    unfolding ve' fl V_def ve_def Q_def
    by (rule clamped_ve_small) (use that in \<open>simp_all add: V_def ve_def\<close>)
  have e: "uint Q = uint (max_cap_of g) * uint (SCX_SLICE_DFL rt) div 1024"
    if "uint (SCX_SLICE_DFL rt) < 4294967296"
    unfolding Q_def by (rule uint_q_max_exact [OF that])
  let ?st' = "st\<lparr>task_ctx_map := tm,
                dsqs := scx_bpf_dsq_insert_vtime (p\<lparr>scx_dsq_vtime := ve'\<rparr>) dsq
                          (SCX_SLICE_DFL rt) (ve' + d) enq_flags (dsqs st)\<rparr>"
  have f1: "global_data ?st' = Some g" using g by simp
  have f2: "dsqs ?st' = scx_bpf_dsq_insert_vtime (p\<lparr>scx_dsq_vtime := ve'\<rparr>) dsq
                          (SCX_SLICE_DFL rt) (ve' + d) enq_flags (dsqs st)" by simp
  have f: "\<exists>t1 d t2 dsq st'.
            refresh_weight_cache t0 w = Some t1 \<and>
            div_by_weight_cached (Q * SCALE) w t1 = Some (d, t2) \<and>
            desired_dsq_for_task rt (p\<lparr>scx_dsq_vtime := ve'\<rparr>) (Some g) (max_cap_of g) st
              = Some dsq \<and>
            eevdf_enqueue rt p enq_flags st = Some (p\<lparr>scx_dsq_vtime := ve'\<rparr>, st') \<and>
            global_data st' = Some g \<and>
            dsqs st' = scx_bpf_dsq_insert_vtime (p\<lparr>scx_dsq_vtime := ve'\<rparr>) dsq
                         (SCX_SLICE_DFL rt) (ve' + d) enq_flags (dsqs st)"
    using r1 r2 ds r f1 f2 by blast
  show ?thesis using a b c e f by blast
qed

text \<open>
  The theorem at \<open>V = 200000000\<close>, \<open>v_e = 0\<close>, weight 100 and the default slice:
  \<open>Q_max = 20000000\<close>, \<open>v_e\<close> becomes \<open>V_floor = 180000000\<close>, and the task enters
  BIG under the key \<open>180000000 + 20000457\<close>.
\<close>

theorem C3_lag_bound_witness:
  "global_data (mk_sched 200000000 100 1024) =
     Some \<lparr>vtime_now = 200000000, total_weight = 100, max_capacity = 1024, pad = 0\<rparr> \<and>
   uint (200000000 :: u64) < 9223372036854775808 \<and> uint (0 :: u64) < 9223372036854775808 \<and>
   uint (SCX_SLICE_DFL rt_dfl) < 4294967296 \<and>
   dsq_vtime_after (eevdf_enqueue rt_dfl (mk_task 1 100 0) 0 (mk_sched 200000000 100 1024))
     = Some 180000000 \<and>
   uint (q_max_of rt_dfl \<lparr>vtime_now = 200000000, total_weight = 100, max_capacity = 1024, pad = 0\<rparr>)
     = 20000000 \<and>
   dsqs_after (eevdf_enqueue rt_dfl (mk_task 1 100 0) 0 (mk_sched 200000000 100 1024))
     EEVDF_DSQ_BIG = Some [(200000457, 1)]"
proof -
  have h: "global_data (mk_sched 200000000 100 1024) =
     Some \<lparr>vtime_now = 200000000, total_weight = 100, max_capacity = 1024, pad = 0\<rparr>"
    by (simp add: mk_sched_def)
  have q: "q_max_of rt_dfl \<lparr>vtime_now = 200000000, total_weight = 100, max_capacity = 1024, pad = 0\<rparr>
           = 20000000"
    by (simp add: q_max_of_def max_cap_of_def rt_dfl_def)
  have tb: "time_before 0 180000000" by (simp add: time_before_def word_sless_alt)
  have s: "uint (SCX_SLICE_DFL rt_dfl) < 4294967296" by (simp add: rt_dfl_def)
  have k: "dsqs_after (eevdf_enqueue rt_dfl (mk_task 1 100 0) 0 (mk_sched 200000000 100 1024))
     EEVDF_DSQ_BIG = Some [(200000457, 1)]"
    by (simp add: eevdf_enqueue_def handler_eval)
  show ?thesis
    using h s k C3_lag_bound [OF h, of rt_dfl "mk_task 1 100 0" 0]
    by (simp add: q tb mk_task_def word_less_def)
qed

text \<open>
  C3 as stated (for every state, in plain numbers) fails where \<open>V\<close> and \<open>v_e\<close> are
  \<open>2^63\<close> or more apart: with \<open>V = 2^63 + 1 + Q_max\<close>, \<open>Q_max = 20000000\<close> and
  \<open>v_e = 0\<close>, \<open>v_e\<close> is numerically below \<open>V - Q_max\<close> but after it in the
  wrap-around order, so it is not clamped: \<open>v_e\<close> stays 0 and \<open>V - v_e > Q_max\<close>.
\<close>

theorem C3_counterexample:
  "dsq_vtime_after
     (eevdf_enqueue rt_dfl (mk_task 7 100 0) 0 (mk_sched 9223372036874775809 100 1024)) = Some 0 \<and>
   q_max_of rt_dfl \<lparr>vtime_now = 9223372036874775809, total_weight = 100, max_capacity = 1024, pad = 0\<rparr>
     = 20000000 \<and>
   \<not> uint (9223372036874775809 :: u64) - uint (0 :: u64) \<le> uint (20000000 :: u64)"
proof -
  have h: "global_data (mk_sched 9223372036874775809 100 1024) =
     Some \<lparr>vtime_now = 9223372036874775809, total_weight = 100, max_capacity = 1024, pad = 0\<rparr>"
    by (simp add: mk_sched_def)
  have q: "q_max_of rt_dfl \<lparr>vtime_now = 9223372036874775809, total_weight = 100, max_capacity = 1024, pad = 0\<rparr>
           = 20000000"
    by (simp add: q_max_of_def max_cap_of_def rt_dfl_def)
  have c: "clamped_ve rt_dfl \<lparr>vtime_now = 9223372036874775809, total_weight = 100, max_capacity = 1024, pad = 0\<rparr>
             (mk_task 7 100 0) = 0"
    by (simp add: clamped_ve_def min_ve_of_def q time_before_def word_sless_alt mk_task_def word_less_def)
  have "dsq_vtime_after
     (eevdf_enqueue rt_dfl (mk_task 7 100 0) 0 (mk_sched 9223372036874775809 100 1024)) = Some 0"
    using eevdf_enqueue_result [OF h, of rt_dfl "mk_task 7 100 0" 0]
    by (auto simp: dsq_vtime_after_def c)
  then show ?thesis using q by simp
qed

lemma max_cap_of_nonzero [simp]: "max_cap_of g \<noteq> 0"
  by (simp add: max_cap_of_def)

lemma int_boost_bound:
  fixes q :: int
  shows "0 \<le> q \<Longrightarrow> q < 18014398509481984 \<Longrightarrow> q div 4 + 1 < 9223372036854775808 \<and> 0 \<le> q div 4 + 1"
  by simp

lemma uint_lag_boost: "uint (lag_boost_of rt g) = uint (q_max_of rt g) div 4 + 1"
proof -
  have b: "uint (q_max_of rt g) div 4 + 1 < 9223372036854775808 \<and> 0 \<le> uint (q_max_of rt g) div 4 + 1"
    by (rule int_boost_bound) (simp_all add: uint_q_max)
  have "uint (q_max_of rt g div 4) + uint (1 :: u64) < 18446744073709551616"
    using b by (simp add: uint_div)
  then show ?thesis
    unfolding lag_boost_of_def uint_add_u64 [of "q_max_of rt g div 4" 1] by (simp add: uint_div)
qed

lemma sint_lag_boost:
  "sint (lag_boost_of rt g) = uint (q_max_of rt g) div 4 + 1"
  "sint (- lag_boost_of rt g) = - (uint (q_max_of rt g) div 4 + 1)"
proof -
  have b: "uint (q_max_of rt g) div 4 + 1 < 9223372036854775808 \<and> 0 \<le> uint (q_max_of rt g) div 4 + 1"
    by (rule int_boost_bound) (simp_all add: uint_q_max)
  then have lt: "uint (lag_boost_of rt g) < 9223372036854775808" by (simp add: uint_lag_boost)
  show "sint (lag_boost_of rt g) = uint (q_max_of rt g) div 4 + 1"
    using sint_pos_u64 [OF lt] by (simp add: uint_lag_boost)
  have "uint (lag_boost_of rt g) \<le> 9223372036854775808" using lt by simp
  then show "sint (- lag_boost_of rt g) = - (uint (q_max_of rt g) div 4 + 1)"
    using sint_neg_u64 [of "lag_boost_of rt g"] by (simp add: uint_lag_boost)
qed

lemma int_scaled_bound:
  fixes c :: int
  shows "0 \<le> c \<Longrightarrow> c < 4294967296 \<Longrightarrow> c * 100 < 18446744073709551616 \<and> c * 90 < 18446744073709551616"
  by simp

lemma class_dsq_id_eq:
  "class_dsq_id cap (max_cap_of g) =
     (if 90 * uint (max_cap_of g) \<le> 100 * uint cap then EEVDF_DSQ_BIG else EEVDF_DSQ_LITTLE)"
proof -
  have c: "uint ((ucast cap :: u64) * 100) = uint cap * 100"
  proof -
    have "uint (ucast cap :: u64) * uint (100 :: u64) < 2 ^ LENGTH(64)"
      using int_scaled_bound [OF uint_u32_bounds, of cap] by simp
    then show ?thesis by (simp only: uint_mult_lem) simp
  qed
  have m: "uint ((ucast (max_cap_of g) :: u64) * 90) = uint (max_cap_of g) * 90"
  proof -
    have "uint (ucast (max_cap_of g) :: u64) * uint (90 :: u64) < 2 ^ LENGTH(64)"
      using int_scaled_bound [OF uint_u32_bounds, of "max_cap_of g"] by simp
    then show ?thesis by (simp only: uint_mult_lem) simp
  qed
  show ?thesis
    by (simp add: class_dsq_id_def Let_def word_le_def c m mult.commute)
qed

text \<open>
  C6 (as amended). Class routing of \<open>eevdf_enqueue\<close>. With \<open>\<ell>\<close> the lag
  \<open>V - v_e\<close> after the clamp read as a signed 64-bit number (the source's
  \<open>s64 lag\<close>), \<open>Q_max = \<rho>_max\<cdot>SLICE/CAP_SCALE\<close> computed in \<open>u64\<close>, \<open>\<rho>_max\<close> the
  global \<open>max_capacity\<close> (1024 when it is 0) and \<open>\<rho>_c\<close> the entry of \<open>cpu_capacity\<close>
  for the task's current CPU (1024 when the entry is missing or 0): the task is
  inserted into BIG when \<open>\<ell> > Q_max/4 + 1\<close>, into LITTLE when
  \<open>\<ell> < -(Q_max/4 + 1)\<close>, and otherwise into BIG if \<open>100\<cdot>\<rho>_c \<ge> 90\<cdot>\<rho>_max\<close> and into
  LITTLE if not. The target queue (assumed to exist) gains the task under its
  deadline key, the clamped \<open>v_e\<close> plus the quotient \<open>d\<close> of
  \<open>div_by_weight_cached\<close>; no other queue changes.
\<close>

theorem C6_class_routing:
  fixes rt :: runtime and p :: task_struct and st :: sched and g :: eevdf_ctx and enq_flags :: u64
  defines "cap_max \<equiv> (if max_capacity g \<noteq> 0 then max_capacity g else 1024)"
  defines "Q \<equiv> (ucast cap_max :: u64) * SCX_SLICE_DFL rt div 1024"
  defines "V \<equiv> vtime_now g" and "ve \<equiv> scx_dsq_vtime p"
  defines "V_floor \<equiv> (if V > Q then V - Q else 0)"
  defines "ve' \<equiv> (if time_before ve V_floor then V_floor else ve)"
  defines "l \<equiv> sint (V - ve')"
    and "boost \<equiv> uint Q div 4 + 1"
    and "rho_c \<equiv> (case cpu_capacity st (task_cpu p) of
                     Some cap \<Rightarrow> if cap = 0 then 1024 else uint cap
                   | None \<Rightarrow> 1024)"
    and "rho_max \<equiv> uint cap_max"
  defines "target \<equiv> (if boost < l then EEVDF_DSQ_BIG
                       else if l < - boost then EEVDF_DSQ_LITTLE
                       else if 90 * rho_max \<le> 100 * rho_c then EEVDF_DSQ_BIG
                       else EEVDF_DSQ_LITTLE)"
  defines "w \<equiv> (if scx_weight p = 0 then 1 else scx_weight p)"
  defines "t0 \<equiv> (case task_ctx_map st (pid p) of
                    Some t \<Rightarrow> Some t
                  | None \<Rightarrow> if storage_alloc rt
                            then Some \<lparr>weight_cached = 0, inv_weight = 0\<rparr> else None)"
  assumes g: "global_data st = Some g" and q: "dsqs st target = Some q0"
  shows "\<exists>t1 d t2.
           refresh_weight_cache t0 w = Some t1 \<and>
           div_by_weight_cached (Q * SCALE) w t1 = Some (d, t2) \<and>
           dsqs_after (eevdf_enqueue rt p enq_flags st) target
             = Some (priq_insert (ve' + d, pid p) q0) \<and>
           (\<forall>x. x \<noteq> target \<longrightarrow> dsqs_after (eevdf_enqueue rt p enq_flags st) x = dsqs st x)"
proof -
  have cm: "cap_max = max_cap_of g" by (simp add: cap_max_def max_cap_of_def)
  have Q: "Q = q_max_of rt g" by (simp add: Q_def q_max_of_def cm)
  have fl: "V_floor = min_ve_of rt g" by (simp add: V_floor_def min_ve_of_def V_def Q)
  have ve': "ve' = clamped_ve rt g p" by (simp add: ve'_def clamped_ve_def fl ve_def)
  have w: "w = weight_of (scx_weight p)" by (simp add: w_def weight_of_def)
  have t0: "t0 = fst (get_task_ctx rt p True st)" by (simp add: t0_def get_task_ctx_fst)
  have rc: "rho_c = uint (get_cpu_cap st (task_cpu p))" by (simp add: rho_c_def get_cpu_cap_uint)
  let ?p = "p\<lparr>scx_dsq_vtime := ve'\<rparr>"
  obtain t1 d t2 tm dsq where
    r1: "refresh_weight_cache t0 w = Some t1" and
    r2: "div_by_weight_cached (Q * SCALE) w t1 = Some (d, t2)" and
    ds: "desired_dsq_for_task rt ?p (Some g) (max_cap_of g) st = Some dsq" and
    r: "eevdf_enqueue rt p enq_flags st =
       Some (?p, st\<lparr>task_ctx_map := tm,
                   dsqs := scx_bpf_dsq_insert_vtime ?p dsq (SCX_SLICE_DFL rt) (ve' + d) enq_flags
                             (dsqs st)\<rparr>)"
    using eevdf_enqueue_exact [OF g, of rt p enq_flags] unfolding ve' w t0 Q by blast
  have "desired_dsq_for_task rt ?p (Some g) (max_cap_of g) st = Some target"
    unfolding desired_dsq_for_task_eq
    by (simp add: target_def l_def boost_def rc rho_max_def cm Q V_def word_sless_alt sint_lag_boost
        lag_of_def class_dsq_id_eq)
  then have "dsq = target" using ds by simp
  then have r': "eevdf_enqueue rt p enq_flags st =
       Some (?p, st\<lparr>task_ctx_map := tm,
                   dsqs := scx_bpf_dsq_insert_vtime ?p target (SCX_SLICE_DFL rt) (ve' + d) enq_flags
                             (dsqs st)\<rparr>)"
    using r by simp
  have "dsqs_after (eevdf_enqueue rt p enq_flags st) target = Some (priq_insert (ve' + d, pid p) q0)"
    using q by (simp add: r' dsqs_after_def scx_bpf_dsq_insert_vtime_def)
  moreover have "\<forall>x. x \<noteq> target \<longrightarrow> dsqs_after (eevdf_enqueue rt p enq_flags st) x = dsqs st x"
    using q by (simp add: r' dsqs_after_def scx_bpf_dsq_insert_vtime_def)
  ultimately show ?thesis using r1 r2 by blast
qed

text \<open>
  The theorem on the machine with two classes, at \<open>V = 200000000\<close> where
  \<open>Q_max/4 + 1 = 5000001\<close>: lag 20000000 on the LITTLE CPU 0 goes to BIG; lag
  \<open>-10000000\<close> on the BIG CPU 1 goes to LITTLE; lag 0 goes to LITTLE on CPU 0
  (capacity 512), to BIG on CPU 1 (capacity 1024) and to BIG on CPU 2 (entry 0,
  read as 1024).
\<close>

theorem C6_class_routing_witness:
  "global_data (hybrid_sched 200000000) =
     Some \<lparr>vtime_now = 200000000, total_weight = 100, max_capacity = 1024, pad = 0\<rparr> \<and>
   dsqs (hybrid_sched 200000000) EEVDF_DSQ_BIG = Some [] \<and>
   dsqs (hybrid_sched 200000000) EEVDF_DSQ_LITTLE = Some [] \<and>
   cpu_capacity (hybrid_sched 200000000) 0 = Some 512 \<and>
   cpu_capacity (hybrid_sched 200000000) 1 = Some 1024 \<and>
   cpu_capacity (hybrid_sched 200000000) 2 = Some 0 \<and>
   dsqs_after (eevdf_enqueue rt_dfl (mk_task 7 100 0) 0 (hybrid_sched 200000000))
     EEVDF_DSQ_BIG = Some [(200000457, 7)] \<and>
   dsqs_after (eevdf_enqueue rt_dfl ((mk_task 7 100 210000000)\<lparr>task_cpu := 1\<rparr>) 0
                 (hybrid_sched 200000000))
     EEVDF_DSQ_LITTLE = Some [(230000457, 7)] \<and>
   dsqs_after (eevdf_enqueue rt_dfl (mk_task 7 100 200000000) 0 (hybrid_sched 200000000))
     EEVDF_DSQ_LITTLE = Some [(220000457, 7)] \<and>
   dsqs_after (eevdf_enqueue rt_dfl ((mk_task 7 100 200000000)\<lparr>task_cpu := 1\<rparr>) 0
                 (hybrid_sched 200000000))
     EEVDF_DSQ_BIG = Some [(220000457, 7)] \<and>
   dsqs_after (eevdf_enqueue rt_dfl ((mk_task 7 100 200000000)\<lparr>task_cpu := 2\<rparr>) 0
                 (hybrid_sched 200000000))
     EEVDF_DSQ_BIG = Some [(220000457, 7)]"
proof -
  let ?g = "\<lparr>vtime_now = 200000000, total_weight = 100, max_capacity = 1024, pad = 0\<rparr>"
  let ?st = "hybrid_sched 200000000"
  have h: "global_data ?st = Some ?g"
    by (simp add: hybrid_sched_def mk_sched_def)
  show ?thesis
    using h
      C6_class_routing [where rt = rt_dfl and p = "mk_task 7 100 0" and st = ?st and g = ?g
        and enq_flags = 0 and ?q0.0 = "[]"]
      C6_class_routing [where rt = rt_dfl and p = "(mk_task 7 100 210000000)\<lparr>task_cpu := 1\<rparr>"
        and st = ?st and g = ?g and enq_flags = 0 and ?q0.0 = "[]"]
      C6_class_routing [where rt = rt_dfl and p = "mk_task 7 100 200000000" and st = ?st and g = ?g
        and enq_flags = 0 and ?q0.0 = "[]"]
      C6_class_routing [where rt = rt_dfl and p = "(mk_task 7 100 200000000)\<lparr>task_cpu := 1\<rparr>"
        and st = ?st and g = ?g and enq_flags = 0 and ?q0.0 = "[]"]
      C6_class_routing [where rt = rt_dfl and p = "(mk_task 7 100 200000000)\<lparr>task_cpu := 2\<rparr>"
        and st = ?st and g = ?g and enq_flags = 0 and ?q0.0 = "[]"]
    by (simp add: hybrid_sched_def handler_eval)
qed

text \<open>
  C6 with \<open>\<ell> = V - v_e\<close> read as plain numbers fails where \<open>V\<close> and \<open>v_e\<close> are
  \<open>2^63\<close> or more apart: with \<open>V = 2^63 + 20000001\<close> and \<open>v_e = 0\<close> (left alone
  by the clamp) the difference \<open>V - v_e\<close> exceeds \<open>Q_max/4 + 1 = 5000001\<close>, but
  as an \<open>s64\<close> it is negative and below \<open>-5000001\<close>: the task is inserted into
  LITTLE and BIG stays empty.
\<close>

theorem C6_counterexample:
  "dsq_vtime_after
     (eevdf_enqueue rt_dfl (mk_task 7 100 0) 0 (mk_sched 9223372036874775809 100 1024)) = Some 0 \<and>
   q_max_of rt_dfl \<lparr>vtime_now = 9223372036874775809, total_weight = 100, max_capacity = 1024, pad = 0\<rparr>
     = 20000000 \<and>
   uint (20000000 :: u64) div 4 + 1 < uint (9223372036874775809 :: u64) - uint (0 :: u64) \<and>
   dsqs_after
     (eevdf_enqueue rt_dfl (mk_task 7 100 0) 0 (mk_sched 9223372036874775809 100 1024))
     EEVDF_DSQ_BIG = Some [] \<and>
   dsqs_after
     (eevdf_enqueue rt_dfl (mk_task 7 100 0) 0 (mk_sched 9223372036874775809 100 1024))
     EEVDF_DSQ_LITTLE = Some [(20000457, 7)]"
  by (simp add: eevdf_enqueue_def q_max_of_def max_cap_of_def handler_eval)

text \<open>
  C9 (as amended). With the global entry present, the task's \<open>dsq_vtime\<close> after a
  handler: \<open>eevdf_enqueue\<close> raises it to \<open>max v_e (V - Q_max)\<close> (floor 0) when \<open>V\<close>
  and \<open>v_e\<close> are below \<open>2^63\<close>; \<open>eevdf_stopping\<close> adds, with 64-bit wrap-around,
  the unsigned increment \<open>d\<close> that \<open>div_by_weight_cached\<close> returns for the service
  \<open>(SLICE - slice) * \<rho>_c * SCALE / CAP_SCALE\<close> on the running CPU, the task's weight
  (0 read as 1) and the task's stored context (\<open>d\<close> is the exact quotient when
  the task has none), so \<open>dsq_vtime\<close> grows by exactly \<open>d\<close> and does not decrease
  unless the sum passes \<open>2^64 - 1\<close>; \<open>eevdf_enable\<close> overwrites it with \<open>V\<close> only
  when it is 0; \<open>eevdf_running\<close>, \<open>eevdf_set_weight\<close> and \<open>eevdf_disable\<close> leave it
  unchanged. (\<open>eevdf_dispatch\<close> receives no task and writes none.) In each of these
  cases \<open>dsq_vtime\<close> after the call is at least \<open>dsq_vtime\<close> before.
\<close>

theorem C9_dsq_vtime:
  fixes rt :: runtime and p :: task_struct and st :: sched and g :: eevdf_ctx
    and enq_flags :: u64 and new_weight :: u32
  defines "V \<equiv> vtime_now g" and "ve \<equiv> scx_dsq_vtime p"
  defines "V_floor \<equiv> (if V > q_max_of rt g then V - q_max_of rt g else 0)"
  defines "cap \<equiv> (case cpu_capacity st (smp_processor_id rt) of
                     Some c \<Rightarrow> if c \<noteq> 0 then c else 1024
                   | None \<Rightarrow> 1024)"
  defines "svc \<equiv> (SCX_SLICE_DFL rt - scx_slice p) * ucast cap * 100 div 1024"
  defines "w \<equiv> (if scx_weight p = 0 then 1 else scx_weight p)"
  assumes g: "global_data st = Some g"
  shows "(uint V < 9223372036854775808 \<and> uint ve < 9223372036854775808 \<longrightarrow>
           dsq_vtime_after (eevdf_enqueue rt p enq_flags st) = Some (max ve V_floor)) \<and>
         ve \<le> max ve V_floor \<and>
         (\<exists>d t'. div_by_weight_cached svc w (task_ctx_map st (pid p)) = Some (d, t') \<and>
               (task_ctx_map st (pid p) = None \<longrightarrow> d = svc div ucast w) \<and>
               dsq_vtime_after (eevdf_stopping rt p st) = Some (ve + d) \<and>
               (uint ve + uint d < 18446744073709551616 \<longrightarrow>
                  ve \<le> ve + d \<and> uint (ve + d) = uint ve + uint d)) \<and>
         dsq_vtime_after (eevdf_enable p st) = Some (if ve = 0 then V else ve) \<and>
         ve \<le> (if ve = 0 then V else ve) \<and>
         dsq_vtime_after (eevdf_running p st) = Some ve \<and>
         dsq_vtime_after (eevdf_set_weight rt p new_weight st) = Some ve \<and>
         dsq_vtime_after (eevdf_disable p st) = Some ve"
proof -
  have fl: "V_floor = min_ve_of rt g" by (simp add: V_floor_def min_ve_of_def V_def)
  have enq: "dsq_vtime_after (eevdf_enqueue rt p enq_flags st) = Some (max ve V_floor)"
    if "uint V < 9223372036854775808" "uint ve < 9223372036854775808"
  proof -
    have "clamped_ve rt g p = max ve V_floor"
      using clamped_ve_small [of g p rt] that by (simp add: fl V_def ve_def)
    then show ?thesis
      using eevdf_enqueue_result [OF g, of rt p enq_flags] by (auto simp: dsq_vtime_after_def)
  qed
  have cap: "cap = get_cpu_cap st (smp_processor_id rt)"
    by (simp add: cap_def get_cpu_cap_def split: option.splits)
  have svc: "svc = svc_vtime_of rt p (get_cpu_cap st (smp_processor_id rt))"
    by (simp add: svc_def svc_vtime_of_def cap)
  have w: "w = weight_of (scx_weight p)" by (simp add: w_def weight_of_def)
  have stop: "\<exists>d t'. div_by_weight_cached svc w (task_ctx_map st (pid p)) = Some (d, t') \<and>
               (task_ctx_map st (pid p) = None \<longrightarrow> d = svc div ucast w) \<and>
               dsq_vtime_after (eevdf_stopping rt p st) = Some (ve + d) \<and>
               (uint ve + uint d < 18446744073709551616 \<longrightarrow>
                  ve \<le> ve + d \<and> uint (ve + d) = uint ve + uint d)"
  proof -
    from eevdf_stopping_exact [of rt p st] obtain d t' where
      dv: "div_by_weight_cached svc w (task_ctx_map st (pid p)) = Some (d, t')" and
      r: "dsq_vtime_after (eevdf_stopping rt p st) = Some (ve + d)"
      unfolding svc w ve_def by blast
    have n: "d = svc div ucast w" if "task_ctx_map st (pid p) = None"
      using dv that unfolding w by (simp add: div_by_weight_cached_None)
    have a: "uint ve + uint d < 18446744073709551616 \<longrightarrow>
            ve \<le> ve + d \<and> uint (ve + d) = uint ve + uint d"
      by (simp add: word_le_def uint_add_u64)
    show ?thesis
      by (rule exI [of _ d], rule exI [of _ t']) (use dv r n a in simp)
  qed
  have en: "dsq_vtime_after (eevdf_enable p st) = Some (if ve = 0 then V else ve)"
    using eevdf_enable_result [OF g, of p] by (auto simp: dsq_vtime_after_def ve_def V_def)
  have run: "dsq_vtime_after (eevdf_running p st) = Some ve"
    using g by (simp add: eevdf_running_def get_ctx_def dsq_vtime_after_def ve_def)
  have sw: "dsq_vtime_after (eevdf_set_weight rt p new_weight st) = Some ve"
    using eevdf_set_weight_result [OF g, of p new_weight rt] by (auto simp: dsq_vtime_after_def ve_def)
  have dis: "dsq_vtime_after (eevdf_disable p st) = Some ve"
    using eevdf_disable_result [OF g, of p] by (auto simp: dsq_vtime_after_def ve_def)
  show ?thesis using enq stop en run sw dis by simp
qed

text \<open>
  The theorem at \<open>V = 200000000\<close> and \<open>v_e = 5\<close>, weight 100, on CPU 0 of capacity
  512 with no stored context: enqueue raises \<open>v_e\<close> to 180000000, stopping after a
  full slice adds \<open>20000000 * 512 * 100 / 1024 / 100 = 10000000\<close>, enable and
  disable leave 5.
\<close>

theorem C9_dsq_vtime_witness:
  "global_data (hybrid_sched 200000000) =
     Some \<lparr>vtime_now = 200000000, total_weight = 100, max_capacity = 1024, pad = 0\<rparr> \<and>
   uint (200000000 :: u64) < 9223372036854775808 \<and> uint (5 :: u64) < 9223372036854775808 \<and>
   task_ctx_map (hybrid_sched 200000000) 7 = None \<and>
   uint (5 :: u64) + uint (10000000 :: u64) < 18446744073709551616 \<and>
   dsq_vtime_after (eevdf_enqueue rt_dfl (mk_task 7 100 5) 0 (hybrid_sched 200000000))
     = Some 180000000 \<and>
   dsq_vtime_after (eevdf_stopping rt_dfl (mk_task 7 100 5) (hybrid_sched 200000000))
     = Some 10000005 \<and>
   dsq_vtime_after (eevdf_enable (mk_task 7 100 5) (hybrid_sched 200000000)) = Some 5 \<and>
   dsq_vtime_after (eevdf_disable (mk_task 7 100 5) (hybrid_sched 200000000)) = Some 5"
proof -
  let ?g = "\<lparr>vtime_now = 200000000, total_weight = 100, max_capacity = 1024, pad = 0\<rparr>"
  have h: "global_data (hybrid_sched 200000000) = Some ?g"
    by (simp add: hybrid_sched_def mk_sched_def)
  have q: "q_max_of rt_dfl ?g = 20000000"
    by (simp add: q_max_of_def max_cap_of_def rt_dfl_def)
  have s: "dsq_vtime_after (eevdf_stopping rt_dfl (mk_task 7 100 5) (hybrid_sched 200000000))
     = Some 10000005"
    by (simp add: eevdf_stopping_def hybrid_sched_def handler_eval)
  have t: "task_ctx_map (hybrid_sched 200000000) 7 = None"
    by (simp add: hybrid_sched_def mk_sched_def)
  show ?thesis
    using h s t C9_dsq_vtime [OF h, where rt = rt_dfl and p = "mk_task 7 100 5" and enq_flags = 0
        and new_weight = 0]
    by (simp add: q mk_task_def word_less_def max_def word_le_def)
qed

text \<open>
  C9 as stated (every handler, every state) fails in two places. \<open>eevdf_enqueue\<close>
  compares with \<open>time_before\<close>: with \<open>V = 0\<close> (floor 0) and \<open>v_e = 2^63\<close> the task
  counts as before the floor and \<open>v_e\<close> is lowered to 0. \<open>eevdf_stopping\<close> adds with
  wrap-around: from \<open>v_e = 2^64 - 1\<close> a full slice at weight 100 leaves 19999999.
\<close>

theorem C9_counterexample:
  "dsq_vtime_after
     (eevdf_enqueue rt_dfl (mk_task 7 100 9223372036854775808) 0 (mk_sched 0 100 1024)) = Some 0 \<and>
   dsq_vtime_after
     (eevdf_stopping rt_dfl (mk_task 7 100 18446744073709551615) (mk_sched 0 100 1024))
       = Some 19999999"
proof -
  let ?g = "\<lparr>vtime_now = 0, total_weight = 100, max_capacity = 1024, pad = 0\<rparr>"
  have h: "global_data (mk_sched 0 100 1024) = Some ?g"
    by (simp add: mk_sched_def)
  have q: "q_max_of rt_dfl ?g = 20000000"
    by (simp add: q_max_of_def max_cap_of_def rt_dfl_def)
  have c: "clamped_ve rt_dfl ?g (mk_task 7 100 9223372036854775808) = 0"
    by (simp add: clamped_ve_def min_ve_of_def q time_before_def word_sless_alt mk_task_def word_less_def)
  have a: "dsq_vtime_after
     (eevdf_enqueue rt_dfl (mk_task 7 100 9223372036854775808) 0 (mk_sched 0 100 1024)) = Some 0"
    using eevdf_enqueue_result [OF h, of rt_dfl "mk_task 7 100 9223372036854775808" 0]
    by (auto simp: dsq_vtime_after_def c)
  have b: "dsq_vtime_after
     (eevdf_stopping rt_dfl (mk_task 7 100 18446744073709551615) (mk_sched 0 100 1024))
       = Some 19999999"
    by (simp add: eevdf_stopping_def handler_eval)
  show ?thesis using a b by simp
qed

section \<open>The reciprocal division\<close>

lemma int_div_bounds:
  fixes a b :: int
  assumes "0 < b"
  shows "(a div b) * b \<le> a" and "a < (a div b) * b + b"
proof -
  have "a = (a div b) * b + a mod b" by simp
  moreover have "0 \<le> a mod b" "a mod b < b" using assms by simp_all
  ultimately show "(a div b) * b \<le> a" and "a < (a div b) * b + b" by linarith+
qed

text \<open>
  The error of multiplying by the rounded reciprocal \<open>i\<close> of \<open>w\<close> and shifting by
  20 bits: \<open>i * w\<close> is within \<open>w / 2\<close> of \<open>2^20\<close>, so \<open>v * i / 2^20\<close> is within
  \<open>v / 2^21\<close> of \<open>v / w\<close>, and the two truncations add at most 1.
\<close>

lemma reciprocal_error:
  fixes v w :: int
  assumes w1: "1 \<le> w" and v0: "0 \<le> v"
  defines "i \<equiv> (1048576 + w div 2) div w"
  shows "\<bar>v * i div 1048576 - v div w\<bar> \<le> v div 2097152 + 1"
proof -
  define F where "F = v * i div 1048576"
  define E where "E = v div w"
  define k where "k = v div 2097152"
  define h where "h = w div 2"
  define P where "P = v * i"
  have wpos: "0 < w" using w1 by simp
  have F1: "F * 1048576 \<le> P" and F2: "P < F * 1048576 + 1048576"
    unfolding F_def P_def by (rule int_div_bounds, simp)+
  have E1: "E * w \<le> v" and E2: "v < E * w + w"
    unfolding E_def by (rule int_div_bounds [OF wpos])+
  have k2: "v < k * 2097152 + 2097152"
    unfolding k_def by (rule int_div_bounds, simp)
  have h1: "h * 2 \<le> w" and h2: "w < h * 2 + 2"
    unfolding h_def by (rule int_div_bounds, simp)+
  have i1: "i * w \<le> 1048576 + h" and i2: "1048576 + h < i * w + w"
    unfolding i_def h_def by (rule int_div_bounds [OF wpos])+
  have f1: "1048576 * (F * w) \<le> P * w"
    using mult_right_mono [OF F1, of w] wpos by (simp add: algebra_simps)
  have f2: "P * w < 1048576 * (F * w) + 1048576 * w"
    using mult_strict_right_mono [OF F2 wpos] by (simp add: algebra_simps)
  have f3: "P * w \<le> 1048576 * v + v * h"
    using mult_left_mono [OF i1 v0] by (simp add: P_def algebra_simps)
  have f4: "1048576 * v + v * h + v \<le> P * w + v * w"
  proof -
    have "1048576 + h + 1 \<le> i * w + w" using i2 by simp
    from mult_left_mono [OF this v0] show ?thesis by (simp add: P_def algebra_simps)
  qed
  have f5: "2 * (v * h) \<le> v * w"
    using mult_left_mono [OF h1 v0] by (simp add: algebra_simps)
  have f6: "v * w \<le> 2 * (v * h) + v"
  proof -
    have "w \<le> h * 2 + 1" using h2 by simp
    from mult_left_mono [OF this v0] show ?thesis by (simp add: algebra_simps)
  qed
  have f9: "v * w < 2097152 * (k * w) + 2097152 * w"
    using mult_strict_right_mono [OF k2 wpos] by (simp add: algebra_simps)
  have up: "F \<le> E + k + 1"
  proof (rule ccontr)
    assume "\<not> F \<le> E + k + 1"
    then have "E + k + 2 \<le> F" by simp
    from mult_right_mono [OF this, of w] wpos
    have "E * w + k * w + 2 * w \<le> F * w" by (simp add: algebra_simps)
    then show False using f1 f3 f5 f9 E2 by linarith
  qed
  have lo: "E \<le> F + k + 1"
  proof (rule ccontr)
    assume "\<not> E \<le> F + k + 1"
    then have "F + k + 2 \<le> E" by simp
    from mult_right_mono [OF this, of w] wpos
    have "F * w + k * w + 2 * w \<le> E * w" by (simp add: algebra_simps)
    then show False using f2 f4 f6 f9 E1 v0 by linarith
  qed
  show ?thesis using up lo unfolding F_def E_def k_def by simp
qed

lemma w_inv_spec_range:
  assumes "1 \<le> uint (w :: u32)" "uint w \<le> 2097152"
  shows "w_inv_spec w = (1048576 + uint w div 2) div uint w"
    and "1 \<le> w_inv_spec w" and "w_inv_spec w \<le> 1048576"
proof -
  have "uint w \<le> 1048576 + uint w div 2" using assms by linarith
  then have "0 < (1048576 + uint w div 2) div uint w"
    using assms by (simp add: pos_imp_zdiv_pos_iff)
  then show e: "w_inv_spec w = (1048576 + uint w div 2) div uint w"
    by (simp add: w_inv_spec_def)
  show "1 \<le> w_inv_spec w" by (simp add: w_inv_spec_def)
  have "(1048576 + uint w div 2) div uint w \<le> (1048576 * uint w) div uint w"
    by (rule zdiv_mono1) (use assms in linarith, use assms in simp)
  then show "w_inv_spec w \<le> 1048576" using assms e by simp
qed

lemma uint_inv64:
  "uint ((push_bit INV_SHIFT (1 :: u64) + ucast ((w :: u32) div 2)) div ucast w) =
     (1048576 + uint w div 2) div uint w"
proof -
  have h: "uint (w div 2) = uint w div 2"
    by (simp add: uint_div)
  have "uint w div 2 < 4294967296" using uint_u32_bounds [of w] by linarith
  then have "uint (push_bit INV_SHIFT (1 :: u64) + ucast (w div 2)) = 1048576 + uint w div 2"
    by (simp add: uint_add_u64 h)
  then show ?thesis by (simp add: uint_div)
qed

lemma refresh_weight_cache_cold:
  assumes w: "1 \<le> uint w" "uint w \<le> 2097152"
      and cold: "weight_cached t \<noteq> w \<or> inv_weight t = 0"
  shows "\<exists>i. refresh_weight_cache (Some t) w =
                Some (Some (t\<lparr>weight_cached := w, inv_weight := i\<rparr>))
           \<and> uint i = w_inv_spec w"
proof -
  define inv where "inv = (push_bit INV_SHIFT (1 :: u64) + ucast (w div 2)) div ucast w"
  have ui: "uint inv = w_inv_spec w"
    unfolding inv_def using uint_inv64 [of w] w_inv_spec_range(1) [OF w] by simp
  have w0: "w \<noteq> 0" using w by auto
  have inv0: "inv \<noteq> 0" using ui w_inv_spec_range [OF w] by auto
  have "uint (ucast inv :: u32) = uint inv"
    using ui w_inv_spec_range [OF w] by (simp add: unsigned_ucast_eq take_bit_int_eq_self)
  then have "uint (ucast inv :: u32) = w_inv_spec w" using ui by simp
  moreover have "refresh_weight_cache (Some t) w =
      Some (Some (t\<lparr>weight_cached := w, inv_weight := ucast inv\<rparr>))"
    using cold w0 inv0 by (auto simp add: refresh_weight_cache_def udiv_def Let_def inv_def)
  ultimately show ?thesis by blast
qed

lemma cache_consistent_inv:
  assumes w: "1 \<le> uint (weight_cached t)" "uint (weight_cached t) \<le> 2097152"
      and c: "cache_consistent t" and n: "inv_weight t \<noteq> 0"
  shows "uint (inv_weight t) = w_inv_spec (weight_cached t)"
proof -
  from c n have r:
    "refresh_weight_cache (Some (t\<lparr>inv_weight := 0\<rparr>)) (weight_cached t) = Some (Some t)"
    by (simp add: cache_consistent_def)
  from refresh_weight_cache_cold [OF w, of "t\<lparr>inv_weight := 0\<rparr>"] obtain i where
    "refresh_weight_cache (Some (t\<lparr>inv_weight := 0\<rparr>)) (weight_cached t) =
       Some (Some (t\<lparr>inv_weight := 0, weight_cached := weight_cached t, inv_weight := i\<rparr>))"
    and i: "uint i = w_inv_spec (weight_cached t)" by auto
  with r have "t = t\<lparr>inv_weight := 0, weight_cached := weight_cached t, inv_weight := i\<rparr>"
    by simp
  then have "inv_weight t =
      inv_weight (t\<lparr>inv_weight := 0, weight_cached := weight_cached t, inv_weight := i\<rparr>)"
    by simp
  then show ?thesis using i by simp
qed

lemma refresh_weight_cache_inv:
  assumes w: "1 \<le> uint w" "uint w \<le> 2097152" and c: "cache_consistent t"
  shows "\<exists>t'. refresh_weight_cache (Some t) w = Some (Some t') \<and> weight_cached t' = w \<and>
           uint (inv_weight t') = w_inv_spec w \<and> cache_consistent t'"
proof (cases "weight_cached t = w \<and> inv_weight t \<noteq> 0")
  case True
  have w0: "w \<noteq> 0" using w by auto
  from True w0 have "refresh_weight_cache (Some t) w = Some (Some t)"
    by (simp add: refresh_weight_cache_def)
  moreover have "uint (inv_weight t) = w_inv_spec w"
    using cache_consistent_inv [of t] w c True by simp
  ultimately show ?thesis using True c by simp
next
  case False
  then have cold: "weight_cached t \<noteq> w \<or> inv_weight t = 0" by simp
  from refresh_weight_cache_cold [OF w cold] obtain i where
    r: "refresh_weight_cache (Some t) w = Some (Some (t\<lparr>weight_cached := w, inv_weight := i\<rparr>))"
    and i: "uint i = w_inv_spec w" by auto
  from refresh_weight_cache_cold [OF w, of "t\<lparr>weight_cached := w, inv_weight := 0\<rparr>"]
  obtain j where
    r': "refresh_weight_cache (Some (t\<lparr>weight_cached := w, inv_weight := 0\<rparr>)) w =
       Some (Some (t\<lparr>weight_cached := w, inv_weight := 0, weight_cached := w, inv_weight := j\<rparr>))"
    and j: "uint j = w_inv_spec w" by auto
  from i j have "i = j" by (simp add: word_uint_eq_iff)
  with r' have "cache_consistent (t\<lparr>weight_cached := w, inv_weight := i\<rparr>)"
    by (simp add: cache_consistent_def)
  with r i show ?thesis by simp
qed

lemma uint_fast_division:
  fixes i :: u32
  assumes v: "(val :: u64) \<le> 0xffffffff"
  shows "uint (drop_bit INV_SHIFT ((ucast (ucast val :: u32) :: u64) * ucast i)) =
           uint val * uint i div 1048576"
proof -
  have vb: "uint val < 4294967296" using v by (simp add: word_le_def)
  have "uint (ucast val :: u32) = uint val"
    using vb by (simp add: unsigned_ucast_eq take_bit_int_eq_self)
  then have a: "uint (ucast (ucast val :: u32) :: u64) = uint val" by simp
  have "uint val * uint i \<le> 4294967295 * 4294967295"
    by (rule mult_mono) (use vb uint_u32_bounds [of i] in simp_all)
  then have "uint val * uint i < 18446744073709551616" by simp
  then have "uint ((ucast (ucast val :: u32) :: u64) * ucast i) = uint val * uint i"
    using a by (simp add: uint_mult_lem [THEN iffD1])
  moreover have "uint (drop_bit INV_SHIFT ((ucast (ucast val :: u32) :: u64) * ucast i)) =
      uint ((ucast (ucast val :: u32) :: u64) * ucast i) div 1048576"
    by (simp add: drop_bit_eq_div uint_div)
  ultimately show ?thesis by simp
qed

text \<open>
  C4 (as amended). For a weight \<open>w\<close> in \<open>[1, 2^20]\<close>, a value \<open>val \<le> 2^32 - 1\<close> and a
  consistent task context, \<open>div_by_weight_cached\<close> returns, leaves in the cache the
  reciprocal \<open>w_inv = floor ((2^20 + w/2) / w)\<close> of the specification (which is at
  least 1 here, so the clamp is idle), and its result \<open>(val * w_inv) >> 20\<close> differs
  from the exact truncated quotient \<open>val / w\<close> by at most \<open>floor (val / 2^21) + 1\<close>:
  by at most 1 when \<open>val < 2^21\<close>, by at most 2048 over the whole range.
\<close>

theorem C4_reciprocal_bound:
  assumes w: "1 \<le> uint w" "uint w \<le> 1048576"
      and v: "val \<le> 0xffffffff"
      and c: "cache_consistent t"
  shows "\<exists>q t'. div_by_weight_cached val w (Some t) = Some (q, Some t') \<and>
           weight_cached t' = w \<and> uint (inv_weight t') = w_inv_spec w \<and>
           cache_consistent t' \<and>
           uint q = uint val * w_inv_spec w div 1048576 \<and>
           \<bar>uint q - uint val div uint w\<bar> \<le> uint val div 2097152 + 1"
proof -
  have w2: "uint w \<le> 2097152" using w by simp
  have w0: "w \<noteq> 0" using w by auto
  from refresh_weight_cache_inv [OF w(1) w2 c] obtain t' where
    r: "refresh_weight_cache (Some t) w = Some (Some t')" and wc: "weight_cached t' = w"
    and i: "uint (inv_weight t') = w_inv_spec w" and c': "cache_consistent t'" by blast
  define q where
    "q = drop_bit INV_SHIFT ((ucast (ucast val :: u32) :: u64) * ucast (inv_weight t'))"
  have n: "inv_weight t' \<noteq> 0" using i w_inv_spec_range [OF w(1) w2] by auto
  have d: "div_by_weight_cached val w (Some t) = Some (q, Some t')"
    using r n v w0 by (simp add: div_by_weight_cached_def q_def)
  have uq: "uint q = uint val * w_inv_spec w div 1048576"
    unfolding q_def using uint_fast_division [OF v, of "inv_weight t'"] i by simp
  have "\<bar>uint val * w_inv_spec w div 1048576 - uint val div uint w\<bar>
          \<le> uint val div 2097152 + 1"
    unfolding w_inv_spec_range(1) [OF w(1) w2] by (rule reciprocal_error [OF w(1)]) simp
  with uq have "\<bar>uint q - uint val div uint w\<bar> \<le> uint val div 2097152 + 1" by simp
  with d wc i c' uq show ?thesis by blast
qed

text \<open>
  The theorem at weight 3 and \<open>val = 2000000\<close>, from the zeroed context: the
  reciprocal is 349525, the result 666666 is the exact quotient.
\<close>

theorem C4_reciprocal_bound_witness:
  "1 \<le> uint (3 :: u32) \<and> uint (3 :: u32) \<le> 1048576 \<and> (2000000 :: u64) \<le> 0xffffffff \<and>
   cache_consistent fresh_task_ctx \<and>
   div_by_weight_cached 2000000 3 (Some fresh_task_ctx) =
     Some (666666, Some \<lparr>weight_cached = 3, inv_weight = 349525\<rparr>) \<and>
   (\<exists>q t'. div_by_weight_cached 2000000 3 (Some fresh_task_ctx) = Some (q, Some t') \<and>
      \<bar>uint q - uint (2000000 :: u64) div uint (3 :: u32)\<bar>
        \<le> uint (2000000 :: u64) div 2097152 + 1)"
  using C4_reciprocal_bound [of 3 2000000 fresh_task_ctx]
  by (simp add: cache_consistent_def fresh_task_ctx_def handler_eval)

text \<open>
  C4 as stated (difference at most 1) fails at the default weight 100 and
  \<open>val = 2000000000\<close>, the value \<open>Q_max * SCALE\<close> that \<open>eevdf_enqueue\<close> divides on a
  machine of capacity 1024: the reciprocal is 10486 and the result is 20000457,
  while \<open>2000000000 / 100 = 20000000\<close>.
\<close>

theorem C4_counterexample:
  "(100 :: u32) \<in> {1 .. 1048576} \<and> (2000000000 :: u64) \<le> 0xffffffff \<and>
   cache_consistent fresh_task_ctx \<and>
   w_inv_spec 100 = 10486 \<and>
   div_by_weight_cached 2000000000 100 (Some fresh_task_ctx) =
     Some (20000457, Some \<lparr>weight_cached = 100, inv_weight = 10486\<rparr>) \<and>
   uint (2000000000 :: u64) div uint (100 :: u32) = 20000000"
  by (simp add: cache_consistent_def fresh_task_ctx_def w_inv_spec_def handler_eval)

section \<open>Homogeneous machines and the classical scheduler\<close>

text \<open>
  C5. On a machine whose capacities are all 1024, with \<open>V = 2000000000\<close> and the
  default slice, task 7 (weight 80, \<open>v_e = V\<close>) and task 8 (weight 100,
  \<open>v_e = V + 4999500\<close>) are enqueued in this order. \<open>eevdf_enqueue\<close> divides
  \<open>Q_max * SCALE = 2000000000\<close> through the cached reciprocals 13107 and 10486 and
  gets the deadlines \<open>V + 24999618\<close> and \<open>V + 24999957\<close>: task 7 is first in BIG.
  The classical \<open>eevdf_enqueue\<close> divides exactly and gets \<open>V + 25000000\<close> and
  \<open>V + 24999500\<close>: task 8 is first in the shared queue. The two schedulers order
  the same two tasks in opposite ways.
\<close>

theorem C5_homogeneous_divergence:
  "queue_after
     (enqueue_both rt_dfl (mk_task 7 80 2000000000) (mk_task 8 100 2004999500)
        (homogeneous_sched 2000000000 180)) EEVDF_DSQ_BIG
     = [(2024999618, 7), (2024999957, 8)] \<and>
   classic_queue_after
     (classic_enqueue_both rt_dfl (mk_task 7 80 2000000000) (mk_task 8 100 2004999500)
        (classic_mk_sched 2000000000 180)) SHARED_DSQ
     = [(2024999500, 8), (2025000000, 7)]"
proof -
  let ?a = "mk_task 7 80 2000000000" and ?b = "mk_task 8 100 2004999500"
  let ?s1 = "(homogeneous_sched 2000000000 180)
            \<lparr>task_ctx_map := [7 \<mapsto> \<lparr>weight_cached = 80, inv_weight = 13107\<rparr>],
             dsqs := [EEVDF_DSQ_BIG \<mapsto> [(2024999618, 7)], EEVDF_DSQ_LITTLE \<mapsto> []]\<rparr>"
  let ?c1 = "(classic_mk_sched 2000000000 180)
            \<lparr>c_stats := (\<lambda>k. if k < 2 then Some (if k = 1 then 1 else 0) else None),
             c_dsqs := [SHARED_DSQ \<mapsto> [(2025000000, 7)]]\<rparr>"
  have a: "eevdf_enqueue rt_dfl ?a 0 (homogeneous_sched 2000000000 180) = Some (?a, ?s1)"
    by (simp add: eevdf_enqueue_def homogeneous_sched_def handler_eval fun_eq_iff)
  have b: "queue_after (map_option snd (eevdf_enqueue rt_dfl ?b 0 ?s1)) EEVDF_DSQ_BIG
             = [(2024999618, 7), (2024999957, 8)]"
    by (simp add: eevdf_enqueue_def homogeneous_sched_def queue_after_def handler_eval)
  have c: "classic_eevdf_enqueue rt_dfl ?a 0 (classic_mk_sched 2000000000 180) = Some (?a, ?c1)"
    by (simp add: classic_eevdf_enqueue_def classic_stat_inc_def classic_mk_sched_def
          handler_eval fun_eq_iff)
  have d: "classic_queue_after (map_option snd (classic_eevdf_enqueue rt_dfl ?b 0 ?c1)) SHARED_DSQ
             = [(2024999500, 8), (2025000000, 7)]"
    by (simp add: classic_eevdf_enqueue_def classic_stat_inc_def classic_mk_sched_def
          classic_queue_after_def handler_eval)
  have e: "enqueue_both rt_dfl ?a ?b (homogeneous_sched 2000000000 180) =
             map_option snd (eevdf_enqueue rt_dfl ?b 0 ?s1)"
    unfolding enqueue_both_def a by (cases "eevdf_enqueue rt_dfl ?b 0 ?s1") auto
  have f: "classic_enqueue_both rt_dfl ?a ?b (classic_mk_sched 2000000000 180) =
             map_option snd (classic_eevdf_enqueue rt_dfl ?b 0 ?c1)"
    unfolding classic_enqueue_both_def c by (cases "classic_eevdf_enqueue rt_dfl ?b 0 ?c1") auto
  show ?thesis unfolding e f using b d by simp
qed

end
